theory Spec2Isabelle
  imports Main "HOL-Library.AList"
begin

text \<open>
  The plugin registry (\<open>plugins.ts\<close>) and the resolution of imports and of requested URLs
  (\<open>commands/import-resolver.ts\<close>) of Snowpack, as functions over explicit values: what the
  code reads from its surroundings is a parameter, what it raises is a result.
\<close>

section \<open>JavaScript values the code relies on\<close>

text \<open>
  Strings are \<open>string\<close> (ASCII text). Every \<open>throw\<close> and every \<open>process.exit\<close> of the
  source is a value of \<open>error\<close>; a function that can raise returns \<open>error + 'a\<close>.
\<close>

datatype fatal =
    BundlerLoadFailed string      \<comment> \<open>plugins.ts 89: Failed to load plugin ...\<close>
  | LoadedInBoth string           \<comment> \<open>plugins.ts 109: loaded in both scripts and plugins\<close>
  | MissingInput string           \<comment> \<open>plugins.ts 119: missing input options\<close>
  | MountCommand string           \<comment> \<open>import-resolver.ts 34: must use the mount command\<close>
  | MountFormat string            \<comment> \<open>import-resolver.ts 39: must use the format ...\<close>
  | MountTo string                \<comment> \<open>import-resolver.ts 42: --to must start with a /\<close>

datatype error =
    TypeError                     \<comment> \<open>raised by the language: reading a property of undefined,
                                      spreading or iterating a value that is not iterable,
                                      a path function given a value that is not a string\<close>
  | ReferenceError string         \<comment> \<open>raised by the language: the identifier cannot be read\<close>
  | ProcessExit fatal             \<comment> \<open>handleError: console.error, then process.exit(1)\<close>
  | Thrown string                 \<comment> \<open>an exception raised by a collaborator outside this code\<close>

text \<open>A \<open>forEach\<close> or \<open>for ... of\<close> whose body can raise: the first error ends the loop.\<close>

fun foldE :: "('s \<Rightarrow> 'a \<Rightarrow> error + 's) \<Rightarrow> 'a list \<Rightarrow> 's \<Rightarrow> error + 's" where
  "foldE f [] s = Inr s"
| "foldE f (x # xs) s = (case f s x of Inl e \<Rightarrow> Inl e | Inr s' \<Rightarrow> foldE f xs s')"

text \<open>\<open>handleError(msg)\<close>, in both files: \<open>console.error\<close>, then \<open>process.exit(1)\<close>.\<close>

definition handleError :: "fatal \<Rightarrow> error + 'a" where
  "handleError msg = Inl (ProcessExit msg)"

subsection \<open>Strings\<close>

text \<open>\<open>toLowerCase\<close> on ASCII text: only the letters \<open>A\<close> to \<open>Z\<close> change.\<close>

definition lower_char :: "char \<Rightarrow> char" where
  "lower_char c = (let n = (of_char c :: nat) in if 65 \<le> n \<and> n \<le> 90 then char_of (n + 32) else c)"

definition toLowerCase :: "string \<Rightarrow> string" where
  "toLowerCase s = map lower_char s"

text \<open>\<open>s.split(c)\<close> for a one-character separator: the empty string gives one empty piece.\<close>

fun split :: "char \<Rightarrow> string \<Rightarrow> string list" where
  "split c [] = [[]]"
| "split c (x # xs) =
     (if x = c then [] # split c xs
      else (let r = split c xs in (x # hd r) # tl r))"

text \<open>The ASCII characters \<open>\s\<close> and \<open>trim\<close> treat as white space.\<close>

definition is_space :: "char \<Rightarrow> bool" where
  "is_space c = ((of_char c :: nat) \<in> {9, 10, 11, 12, 13, 32})"

definition trim :: "string \<Rightarrow> string" where
  "trim s = rev (dropWhile is_space (rev (dropWhile is_space s)))"

text \<open>\<open>s.split(/\s+/)\<close>: maximal runs of white space separate the pieces.\<close>

function split_ws :: "string \<Rightarrow> string list" where
  "split_ws [] = [[]]"
| "split_ws (x # xs) =
     (if is_space x then [] # split_ws (dropWhile is_space xs)
      else (let r = split_ws xs in (x # hd r) # tl r))"
  by pat_completeness auto
termination
  by (relation "measure length") (auto simp: length_dropWhile_le less_Suc_eq_le)

definition startsWith :: "string \<Rightarrow> string \<Rightarrow> bool" where
  "startsWith s p = (take (length p) s = p)"

text \<open>\<open>[...new Set(xs)]\<close>: a Set keeps its elements in the order of their first insertion.\<close>

fun set_add_all :: "'a list \<Rightarrow> 'a list \<Rightarrow> 'a list" where
  "set_add_all acc [] = acc"
| "set_add_all acc (x # xs) = set_add_all (if x \<in> set acc then acc else acc @ [x]) xs"

definition uniq :: "'a list \<Rightarrow> 'a list" where
  "uniq xs = set_add_all [] xs"

subsection \<open>Plain objects used as dictionaries\<close>

text \<open>
  \<open>{}\<close> is an ordinary object: its own properties, in insertion order, over
  \<open>Object.prototype\<close>. Reading \<open>obj[k]\<close> gives the own property if there is one, else the
  property \<open>Object.prototype\<close> has under that name (a function, or for \<open>__proto__\<close> the
  prototype itself: truthy, not a string, not iterable), else \<open>undefined\<close>.
\<close>

type_synonym 'a obj = "(string \<times> 'a) list"

definition proto_keys :: "string list" where
  "proto_keys =
     [''constructor'', ''__defineGetter__'', ''__defineSetter__'', ''hasOwnProperty'',
      ''__lookupGetter__'', ''__lookupSetter__'', ''isPrototypeOf'', ''propertyIsEnumerable'',
      ''toString'', ''valueOf'', ''__proto__'', ''toLocaleString'']"

datatype 'a lookup = Own 'a | Inherited | Undefined

definition obj_get :: "'a obj \<Rightarrow> string \<Rightarrow> 'a lookup" where
  "obj_get m k =
     (case map_of m k of
        Some v \<Rightarrow> Own v
      | None \<Rightarrow> if k \<in> set proto_keys then Inherited else Undefined)"

text \<open>
  \<open>obj[k] = v\<close> replaces the value of an own property where it stands, or appends a new
  one; under the name \<open>__proto__\<close>, when the object has no own property of that name, it
  calls the inherited setter, which adds no property.
\<close>

definition obj_set :: "'a obj \<Rightarrow> string \<Rightarrow> 'a \<Rightarrow> 'a obj" where
  "obj_set m k v =
     (if k = ''__proto__'' \<and> map_of m k = None then m else AList.update k v m)"

text \<open>
  \<open>Object.entries\<close>/\<open>Object.values\<close> list the array-index names first (canonical decimal
  numerals below \<open>2^32 - 1\<close>), in ascending numeric order, then the other names in insertion
  order.
\<close>

definition is_digit :: "char \<Rightarrow> bool" where
  "is_digit c = (let n = (of_char c :: nat) in 48 \<le> n \<and> n \<le> 57)"

definition decimal :: "string \<Rightarrow> nat" where
  "decimal s = foldl (\<lambda>a c. 10 * a + ((of_char c :: nat) - 48)) 0 s"

definition is_array_index :: "string \<Rightarrow> bool" where
  "is_array_index k =
     (k \<noteq> [] \<and> list_all is_digit k \<and> (k = ''0'' \<or> hd k \<noteq> CHR ''0'') \<and> decimal k < 4294967295)"

definition obj_entries :: "'a obj \<Rightarrow> (string \<times> 'a) list" where
  "obj_entries m =
     sort_key (\<lambda>p. decimal (fst p)) (filter (\<lambda>p. is_array_index (fst p)) m)
       @ filter (\<lambda>p. \<not> is_array_index (fst p)) m"

definition obj_values :: "'a obj \<Rightarrow> 'a list" where
  "obj_values m = map snd (obj_entries m)"

section \<open>What the code takes from outside its own text\<close>

text \<open>
  An identifier a file reads without declaring or importing it is looked up in the global
  scope: it is either bound there or reading it raises a ReferenceError.
  \<open>plugins.ts\<close> reads \<open>name\<close>; \<open>import-resolver.ts\<close> reads \<open>matchedDir\<close>,
  \<open>resolveSourceSpecifier\<close> and \<open>importStats\<close>. Neither file, nor \<open>config.ts\<close>, declares
  any of them, and Node's global object has none of them: \<open>module_scope\<close> is the scope
  the code runs in. The other scopes say what the code after such a read would do.
\<close>

datatype 'a binding = Undeclared | Bound 'a

record scope =
  global_name :: "string binding"
  matchedDir :: "(string \<times> string) option binding"
  resolveSourceSpecifier :: "(string \<Rightarrow> bool \<Rightarrow> error + string) binding"
  importStats :: "unit binding"

definition module_scope :: scope where
  "module_scope =
     \<lparr>global_name = Undeclared, matchedDir = Undeclared,
      resolveSourceSpecifier = Undeclared, importStats = Undeclared\<rparr>"

text \<open>The fields of \<open>SnowpackConfig\<close> this code reads.\<close>

datatype pluginRef = Name string | WithOptions string string

record SnowpackConfig =
  config_scripts :: "(string \<times> string) list"   \<comment> \<open>\<open>Object.entries(config.scripts)\<close>\<close>
  config_plugins :: "pluginRef list"             \<comment> \<open>\<open>config.plugins\<close>\<close>
  config_baseUrl :: string                       \<comment> \<open>\<open>config.buildOptions.baseUrl\<close>\<close>

text \<open>\<open>input: string | string[]\<close>, and \<open>Array.isArray(x) ? x : [x]\<close>.\<close>

datatype exts = One string | Many "string list"

fun as_array :: "exts \<Rightarrow> string list" where
  "as_array (One s) = [s]"
| "as_array (Many xs) = xs"

text \<open>The fields of \<open>SnowpackPlugin\<close> this code reads; \<open>name\<close> is absent on script plugins.\<close>

record SnowpackPlugin =
  name :: "string option"
  "input" :: exts
  "output" :: exts
  defaultBuildScript :: "string option"

text \<open>
  \<open>yargs(cmdArr)\<close>: the value of \<open>--to\<close> and the positional arguments \<open>_\<close>. The value is
  absent, a string, a number or boolean (of which only the truthiness matters), or an array
  of strings when the flag is repeated.
\<close>

datatype arg = Absent | Str string | NonString bool | Strs "string list"

record yargs_result =
  to :: arg
  positional :: "string list"

text \<open>
  The collaborators: the module system (\<open>require(require.resolve(name))(config, options)\<close>,
  which raises or returns the plugin object, \<open>None\<close> for a falsy value), yargs-parser,
  the file system, Node's \<open>path\<close> and \<open>process.cwd()\<close>, and \<open>getExt\<close> and \<open>replaceExt\<close>
  of \<open>../util\<close>. \<open>getExt\<close> returns \<open>(baseExt, expandedExt)\<close>. They are functions: during one
  call of the code the installed modules and the files on disk do not change.
\<close>

record env =
  require_call :: "string \<Rightarrow> SnowpackConfig \<Rightarrow> string option \<Rightarrow> error + SnowpackPlugin option"
  yargs :: "string list \<Rightarrow> yargs_result"
  existsSync :: "string \<Rightarrow> bool"
  process_cwd :: string
  path_join :: "string list \<Rightarrow> string"
  path_extname :: "string \<Rightarrow> string"
  path_posix_normalize :: "string \<Rightarrow> string"
  path_posix_join :: "string list \<Rightarrow> string"
  path_posix_resolve :: "string list \<Rightarrow> string"
  getExt :: "string \<Rightarrow> string \<times> string"
  replaceExt :: "string \<Rightarrow> string \<Rightarrow> string"

section \<open>plugins.ts\<close>

subsection \<open>parseScript\<close>

text \<open>\<open>s.replace(/^\./, '')\<close>: drops one leading dot.\<close>

definition replace_leading_dot :: "string \<Rightarrow> string" where
  "replace_leading_dot s = (case s of [] \<Rightarrow> [] | c # r \<Rightarrow> if c = CHR ''.'' then r else s)"

text \<open>
  \<open>const [scriptType, extMatch] = script.toLowerCase().split(':')\<close>: with no colon in the
  script id \<open>extMatch\<close> is \<open>undefined\<close> and \<open>extMatch.split\<close> raises. Each piece \<open>ext\<close> of
  \<open>extMatch\<close> becomes \<open>`.${ext}`.replace(/^\./, '').trim()\<close>: the method calls apply to the
  whole template string.
\<close>

definition parseScript :: "string \<Rightarrow> error + (string \<times> string list)" where
  "parseScript script =
     (case split (CHR '':'') (toLowerCase script) of
        scriptType # extMatch # _ \<Rightarrow>
          Inr (scriptType,
               uniq (map (\<lambda>ext. trim (replace_leading_dot (CHR ''.'' # ext)))
                         (split (CHR '','') extMatch)))
      | _ \<Rightarrow> Inl TypeError)"

subsection \<open>loadPlugins\<close>

record RunCmd =
  cmd_id :: string
  cmd :: string

record Commands =
  bundler :: "SnowpackPlugin option"
  runCommands :: "RunCmd list"
  buildCommands :: "RunCmd obj"

record LoadState = Commands +
  scriptPlugins :: "SnowpackPlugin obj"

record LoadResult = Commands +
  plugins :: "SnowpackPlugin list"

text \<open>\<open>try { return require(...)(config) } catch (err) { }\<close>: a failure gives \<open>undefined\<close>.\<close>

definition loadPluginFromScript :: "env \<Rightarrow> SnowpackConfig \<Rightarrow> string \<Rightarrow> SnowpackPlugin option" where
  "loadPluginFromScript e config specifier =
     (case require_call e specifier config None of Inl err \<Rightarrow> None | Inr p \<Rightarrow> p)"

definition loadPluginFromConfig ::
  "env \<Rightarrow> SnowpackConfig \<Rightarrow> string \<Rightarrow> string \<Rightarrow> error + SnowpackPlugin option" where
  "loadPluginFromConfig e config nm options = require_call e nm config (Some options)"

text \<open>Truthiness of the values the code tests with \<open>!\<close>.\<close>

fun truthy_string :: "string option \<Rightarrow> bool" where
  "truthy_string None = False"
| "truthy_string (Some s) = (s \<noteq> [])"

fun truthy_exts :: "exts \<Rightarrow> bool" where
  "truthy_exts (One s) = (s \<noteq> [])"
| "truthy_exts (Many xs) = True"

text \<open>
  The body of \<open>Object.entries(config.scripts).forEach\<close> (lines 50 to 99). On path a, when
  \<open>scriptPlugins[pluginName]\<close> is truthy (an own property, or one inherited from
  \<open>Object.prototype\<close>), line 65 destructures \<open>loadPlugins[pluginName]\<close>, a property of the
  function \<open>loadPlugins\<close> itself: that value is \<open>undefined\<close>, or a built-in without
  \<open>input\<close> and \<open>output\<close>, so either the destructuring or the spread \<open>[...input, ...]\<close>
  of line 66 raises a TypeError.
\<close>

definition script_step :: "env \<Rightarrow> SnowpackConfig \<Rightarrow> LoadState \<Rightarrow> string \<times> string \<Rightarrow> error + LoadState" where
  "script_step e config st entry =
     (let target = fst entry; cmd = snd entry in
      case parseScript target of
        Inl err \<Rightarrow> Inl err
      | Inr (scriptType, extensions) \<Rightarrow>
          if scriptType = ''run'' then
            Inr (st\<lparr>runCommands := runCommands st @ [\<lparr>cmd_id = target, cmd = cmd\<rparr>]\<rparr>)
          else if scriptType = ''build'' then
            (let pluginName = cmd in
             case loadPluginFromScript e config pluginName of
               Some plugin \<Rightarrow>
                 (case obj_get (scriptPlugins st) pluginName of
                    Undefined \<Rightarrow>
                      Inr (st\<lparr>scriptPlugins :=
                             obj_set (scriptPlugins st) pluginName
                               (plugin\<lparr>name := Some pluginName,
                                       input := Many extensions,
                                       output := Many extensions\<rparr>)\<rparr>)
                  | _ \<Rightarrow> Inl TypeError)
             | None \<Rightarrow>
                 Inr (st\<lparr>buildCommands :=
                        foldl (\<lambda>m ext. obj_set m ext \<lparr>cmd_id = target, cmd = cmd\<rparr>)
                              (buildCommands st) extensions\<rparr>))
          else if scriptType = ''bundle'' then
            (let bundlerName = cmd in
             case loadPluginFromScript e config bundlerName of
               None \<Rightarrow> handleError (BundlerLoadFailed bundlerName)
             | Some b \<Rightarrow>
                 Inr (st\<lparr>bundler :=
                        Some (if \<not> truthy_string (name b) then b\<lparr>name := Some bundlerName\<rparr> else b)\<rparr>))
          else Inr st)"

fun ref_name :: "pluginRef \<Rightarrow> string" where
  "ref_name (Name n) = n"
| "ref_name (WithOptions n options) = n"

fun ref_options :: "pluginRef \<Rightarrow> string" where
  "ref_options (Name n) = ''{}''"
| "ref_options (WithOptions n options) = options"

text \<open>
  Lines 123 to 127: a plugin with a \<open>defaultBuildScript\<close> and no \<open>input\<close> takes the
  extensions of that script as its input and output.
\<close>

definition with_default_extensions :: "SnowpackPlugin \<Rightarrow> error + SnowpackPlugin" where
  "with_default_extensions plugin =
     (case defaultBuildScript plugin of
        None \<Rightarrow> Inr plugin
      | Some script \<Rightarrow>
          if script \<noteq> [] \<and> \<not> truthy_exts (input plugin) then
            (case parseScript script of
               Inl err \<Rightarrow> Inl err
             | Inr (scriptType, extensions) \<Rightarrow>
                 Inr (plugin\<lparr>input := Many extensions, output := Many extensions\<rparr>))
          else Inr plugin)"

text \<open>
  The body of \<open>config.plugins.forEach\<close> (lines 104 to 135), given \<open>scriptPlugins\<close> and the
  array \<open>plugins\<close> so far. A module that returns nothing makes line 118 read a property of
  \<open>undefined\<close>; line 129 reads \<open>name\<close>.
\<close>

definition plugin_step ::
  "scope \<Rightarrow> env \<Rightarrow> SnowpackConfig \<Rightarrow> SnowpackPlugin obj \<Rightarrow> SnowpackPlugin list \<Rightarrow> pluginRef
     \<Rightarrow> error + SnowpackPlugin list" where
  "plugin_step sc e config loaded ps ref =
     (let pluginName = ref_name ref; pluginOptions = ref_options ref in
      case obj_get loaded pluginName of
        Undefined \<Rightarrow>
          (case loadPluginFromConfig e config pluginName pluginOptions of
             Inl err \<Rightarrow> Inl err
           | Inr None \<Rightarrow> Inl TypeError
           | Inr (Some plugin) \<Rightarrow>
               if \<not> truthy_string (defaultBuildScript plugin) \<and> \<not> truthy_exts (input plugin) then
                 handleError (MissingInput pluginName)
               else
                 (case with_default_extensions plugin of
                    Inl err \<Rightarrow> Inl err
                  | Inr plugin' \<Rightarrow>
                      (case global_name sc of
                         Undeclared \<Rightarrow> Inl (ReferenceError ''name'')
                       | Bound n \<Rightarrow>
                           Inr (ps @
                                [if n = [] then plugin'\<lparr>name := Some pluginName\<rparr> else plugin']))))
      | _ \<Rightarrow> handleError (LoadedInBoth pluginName))"

definition loadPlugins :: "scope \<Rightarrow> env \<Rightarrow> SnowpackConfig \<Rightarrow> error + LoadResult" where
  "loadPlugins sc e config =
     (case foldE (script_step e config) (config_scripts config)
             \<lparr>bundler = None, runCommands = [], buildCommands = [], scriptPlugins = []\<rparr> of
        Inl err \<Rightarrow> Inl err
      | Inr st \<Rightarrow>
          (case foldE (plugin_step sc e config (scriptPlugins st)) (config_plugins config)
                  (obj_values (scriptPlugins st)) of
             Inl err \<Rightarrow> Inl err
           | Inr ps \<Rightarrow>
               Inr \<lparr>bundler = bundler st, runCommands = runCommands st,
                    buildCommands = buildCommands st, plugins = ps\<rparr>))"

subsection \<open>createPluginExtensionMap\<close>

record ExtensionMap =
  extMap_input :: "string list obj"
  extMap_output :: "string list obj"

text \<open>
  One pass of \<open>inputs.forEach\<close>: \<open>if (!m[ext]) m[ext] = []\<close>, then
  \<open>m[ext] = [...new Set([...m[ext], ...outputs])]\<close>. An inherited property is truthy, so
  it is not replaced, and spreading it raises.
\<close>

definition add_input :: "string list \<Rightarrow> string list obj \<Rightarrow> string \<Rightarrow> error + string list obj" where
  "add_input outputs m ext =
     (case obj_get m ext of
        Undefined \<Rightarrow> Inr (obj_set m ext (uniq ([] @ outputs)))
      | Own cur \<Rightarrow> Inr (obj_set m ext (uniq (cur @ outputs)))
      | Inherited \<Rightarrow> Inl TypeError)"

text \<open>One pass of \<open>outputs.forEach\<close>: the same with \<open>[ext]\<close> as the first value.\<close>

definition add_output :: "string list \<Rightarrow> string list obj \<Rightarrow> string \<Rightarrow> error + string list obj" where
  "add_output inputs m ext =
     (case obj_get m ext of
        Undefined \<Rightarrow> Inr (obj_set m ext (uniq ([ext] @ inputs)))
      | Own cur \<Rightarrow> Inr (obj_set m ext (uniq (cur @ inputs)))
      | Inherited \<Rightarrow> Inl TypeError)"

definition add_plugin :: "ExtensionMap \<Rightarrow> SnowpackPlugin \<Rightarrow> error + ExtensionMap" where
  "add_plugin extMap plugin =
     (let inputs = as_array (input plugin); outputs = as_array (output plugin) in
      case foldE (add_input outputs) inputs (extMap_input extMap) of
        Inl e \<Rightarrow> Inl e
      | Inr mi \<Rightarrow>
          (case foldE (add_output inputs) outputs (extMap_output extMap) of
             Inl e \<Rightarrow> Inl e
           | Inr mo \<Rightarrow> Inr \<lparr>extMap_input = mi, extMap_output = mo\<rparr>))"

definition createPluginExtensionMap :: "SnowpackPlugin list \<Rightarrow> error + ExtensionMap" where
  "createPluginExtensionMap ps =
     foldE add_plugin ps \<lparr>extMap_input = [], extMap_output = []\<rparr>"

section \<open>commands/import-resolver.ts\<close>

subsection \<open>getMountedDirs\<close>

fun truthy_arg :: "arg \<Rightarrow> bool" where
  "truthy_arg Absent = False"
| "truthy_arg (Str s) = (s \<noteq> [])"
| "truthy_arg (NonString b) = b"
| "truthy_arg (Strs xs) = True"

text \<open>
  \<open>to[0] !== '/'\<close>: the first character of a string, the first element of an array;
  indexing a number or a boolean gives \<open>undefined\<close>.
\<close>

fun first_is_not_slash :: "arg \<Rightarrow> bool" where
  "first_is_not_slash (Str (c # cs)) = (c \<noteq> CHR ''/'')"
| "first_is_not_slash (Strs (x # xs)) = (x \<noteq> ''/'')"
| "first_is_not_slash a = True"

text \<open>\<open>xs.join(',')\<close>, which is what an array becomes inside a string concatenation.\<close>

fun join_comma :: "string list \<Rightarrow> string" where
  "join_comma [] = []"
| "join_comma [x] = x"
| "join_comma (x # y # r) = x @ '','' @ join_comma (y # r)"

text \<open>\<open>cmdArr[0]\<close> put into a string: \<open>undefined\<close> prints as its name.\<close>

fun first_or_undefined :: "string list \<Rightarrow> string" where
  "first_or_undefined [] = ''undefined''"
| "first_or_undefined (x # xs) = x"

text \<open>The body of the loop over \<open>Object.entries(config.scripts)\<close> (lines 27 to 51).\<close>

definition mount_step :: "env \<Rightarrow> string obj \<Rightarrow> string \<times> string \<Rightarrow> error + string obj" where
  "mount_step e mountedDirs entry =
     (let ident = fst entry; cmd = snd entry in
      if \<not> startsWith ident ''mount:'' then Inr mountedDirs
      else
        (let cmdArr = split_ws cmd in
         if first_or_undefined cmdArr \<noteq> ''mount'' then
           handleError (MountCommand ident)
         else
           (let cmdArr = tl cmdArr; args = yargs e cmdArr in
            if length (positional args) \<noteq> 1 then handleError (MountFormat ident)
            else if truthy_arg (to args) \<and> first_is_not_slash (to args) then
              handleError (MountTo ident)
            else
              (let dirDisk = first_or_undefined cmdArr;
                   dirUrl = (case to args of
                               Str t \<Rightarrow> if t \<noteq> [] then t else CHR ''/'' # first_or_undefined cmdArr
                             | Strs ts \<Rightarrow> join_comma ts
                             | _ \<Rightarrow> CHR ''/'' # first_or_undefined cmdArr);
                   fromDisk = path_posix_normalize e (dirDisk @ ''/'');
                   toUrl = path_posix_normalize e (dirUrl @ ''/'')
               in Inr (obj_set mountedDirs fromDisk toUrl)))))"

definition getMountedDirs :: "env \<Rightarrow> SnowpackConfig \<Rightarrow> error + string obj" where
  "getMountedDirs e config = foldE (mount_step e) (config_scripts config) []"

subsection \<open>createImportResolver\<close>

text \<open>\<open>URL_HAS_PROTOCOL_REGEX = /^(\w+:)?\/\//\<close>; \<open>protocol_match s\<close> is the text it matches.\<close>

definition is_word :: "char \<Rightarrow> bool" where
  "is_word c =
     (let n = (of_char c :: nat) in
      (48 \<le> n \<and> n \<le> 57) \<or> (65 \<le> n \<and> n \<le> 90) \<or> n = 95 \<or> (97 \<le> n \<and> n \<le> 122))"

definition protocol_match :: "string \<Rightarrow> string option" where
  "protocol_match s =
     (let w = takeWhile is_word s in
      if w \<noteq> [] \<and> startsWith (drop (length w) s) ''://'' then Some (w @ ''://'')
      else if startsWith s ''//'' then Some ''//''
      else None)"

definition URL_HAS_PROTOCOL_REGEX_test :: "string \<Rightarrow> bool" where
  "URL_HAS_PROTOCOL_REGEX_test s = (protocol_match s \<noteq> None)"

record ImportMap =
  "imports" :: "string obj"

record ImportResolverOptions =
  fileLoc :: string
  webModulesPath :: string
  dependencyImportMap :: "ImportMap option"
  isDev :: bool
  isBundled :: bool
  options_config :: SnowpackConfig               \<comment> \<open>the field \<open>config\<close>\<close>

datatype resolved = Url string | JsFalse

text \<open>
  \<open>importResolver\<close> (lines 69 to 106). The \<open>cwd\<close> of line 74 is computed from strings and
  never used. Line 76 reads \<open>matchedDir\<close>. Inside the block of
  lines 77 to 80, \<open>const spec = resolveSourceSpecifier(spec, isBundled)\<close> reads the \<open>spec\<close>
  it is declaring, which raises a ReferenceError. On line 86 an inherited property of
  \<open>imports\<close> is truthy and not a string, and the path functions raise on it.
\<close>

definition importResolver :: "scope \<Rightarrow> env \<Rightarrow> ImportResolverOptions \<Rightarrow> string \<Rightarrow> error + resolved" where
  "importResolver sc e opts spec =
     (if URL_HAS_PROTOCOL_REGEX_test spec then Inr (Url spec)
      else
        case matchedDir sc of
          Undeclared \<Rightarrow> Inl (ReferenceError ''matchedDir'')
        | Bound (Some (fromDisk, toUrl)) \<Rightarrow>
            (case resolveSourceSpecifier sc of
               Undeclared \<Rightarrow> Inl (ReferenceError ''resolveSourceSpecifier'')
             | Bound rss \<Rightarrow> Inl (ReferenceError ''spec''))
        | Bound None \<Rightarrow>
            if startsWith spec ''/'' \<or> startsWith spec ''./'' \<or> startsWith spec ''../'' then
              (case resolveSourceSpecifier sc of
                 Undeclared \<Rightarrow> Inl (ReferenceError ''resolveSourceSpecifier'')
               | Bound rss \<Rightarrow>
                   (case importStats sc of
                      Undeclared \<Rightarrow> Inl (ReferenceError ''importStats'')
                    | Bound stats \<Rightarrow>
                        (case rss spec (isBundled opts) of
                           Inl err \<Rightarrow> Inl err
                         | Inr spec' \<Rightarrow> Inr (Url spec'))))
            else
              (case dependencyImportMap opts of
                 None \<Rightarrow> Inr JsFalse
               | Some importMap \<Rightarrow>
                   (case obj_get (imports importMap) spec of
                      Undefined \<Rightarrow> Inr JsFalse
                    | Inherited \<Rightarrow> Inl TypeError
                    | Own mapped \<Rightarrow>
                        if mapped = [] then Inr JsFalse
                        else
                          (let protocolMatch = protocol_match (config_baseUrl (options_config opts));
                               protocol = (case protocolMatch of Some m \<Rightarrow> m | None \<Rightarrow> []);
                               baseUrl = drop (length protocol) (config_baseUrl (options_config opts));
                               resolvedImport =
                                 (if isDev opts
                                  then path_posix_resolve e [webModulesPath opts, mapped]
                                  else protocol @
                                       path_posix_join e [baseUrl, webModulesPath opts, mapped]);
                               extName = path_extname e resolvedImport
                           in Inr (Url (if \<not> isBundled opts \<and> extName \<noteq> [] \<and> extName \<noteq> ''.js''
                                        then resolvedImport @ ''.proxy.js''
                                        else resolvedImport))))))"

definition createImportResolver :: "scope \<Rightarrow> env \<Rightarrow> ImportResolverOptions \<Rightarrow> (string \<Rightarrow> error + resolved)" where
  "createImportResolver sc e opts = importResolver sc e opts"

subsection \<open>urlToFile\<close>

record Located =
  locOnDisk :: "string option"
  lookups :: "string list"

text \<open>
  The inner loop (lines 147 to 154) over the candidate extensions of one mount entry:
  each attempt is recorded, the first that exists is kept and ends this loop.
\<close>

fun try_exts :: "env \<Rightarrow> string \<Rightarrow> string \<Rightarrow> string \<Rightarrow> string list \<Rightarrow> Located \<Rightarrow> Located" where
  "try_exts e cwd url fromDisk [] st = st"
| "try_exts e cwd url fromDisk (ext # rest) st =
     (let locationAttempt = path_join e [cwd, fromDisk, replaceExt e url ext];
          st' = st\<lparr>lookups := lookups st @ [locationAttempt]\<rparr>
      in if existsSync e locationAttempt then st'\<lparr>locOnDisk := Some locationAttempt\<rparr>
         else try_exts e cwd url fromDisk rest st')"

text \<open>
  The body of the outer loop (lines 146 to 155). \<open>for (const ext of extMap.output[key])\<close>
  iterates the own property; \<open>undefined\<close> and an inherited property are not iterable.
\<close>

definition try_dir ::
  "env \<Rightarrow> string \<Rightarrow> string \<Rightarrow> ExtensionMap \<Rightarrow> string \<Rightarrow> Located \<Rightarrow> string \<times> string \<Rightarrow> error + Located" where
  "try_dir e cwd url extMap key st entry =
     (let fromDisk = fst entry in
      case obj_get (extMap_output extMap) key of
        Own candidates \<Rightarrow> Inr (try_exts e cwd url fromDisk candidates st)
      | _ \<Rightarrow> Inl TypeError)"

text \<open>\<open>expandedExt || baseExt\<close>, the name looked up in \<open>extMap.output\<close> (line 147).\<close>

definition lookup_key :: "env \<Rightarrow> string \<Rightarrow> string" where
  "lookup_key e url =
     (let baseExt = fst (getExt e url); expandedExt = snd (getExt e url) in
      if expandedExt \<noteq> [] then expandedExt else baseExt)"

text \<open>\<open>possibleDirs\<close> (line 145): the mount entries whose URL is a prefix of \<open>url\<close>.\<close>

definition possibleDirs :: "string obj \<Rightarrow> string \<Rightarrow> (string \<times> string) list" where
  "possibleDirs mountedDirs url =
     filter (\<lambda>entry. startsWith url (snd entry)) (obj_entries mountedDirs)"

text \<open>The default of the parameter \<open>cwd = process.cwd()\<close>.\<close>

definition cwd_or_default :: "env \<Rightarrow> string option \<Rightarrow> string" where
  "cwd_or_default e cwd_opt = (case cwd_opt of Some d \<Rightarrow> d | None \<Rightarrow> process_cwd e)"

text \<open>
  \<open>urlToFile(url, {config, cwd = process.cwd()})\<close>. Lines 123 to 139 repeat the body of
  \<open>createPluginExtensionMap\<close> word for word.
\<close>

definition urlToFile :: "scope \<Rightarrow> env \<Rightarrow> string \<Rightarrow> SnowpackConfig \<Rightarrow> string option \<Rightarrow> error + Located" where
  "urlToFile sc e url config cwd_opt =
     (let cwd = cwd_or_default e cwd_opt in
      case loadPlugins sc e config of
        Inl err \<Rightarrow> Inl err
      | Inr loaded \<Rightarrow>
          (case getMountedDirs e config of
             Inl err \<Rightarrow> Inl err
           | Inr mountedDirs \<Rightarrow>
               (case createPluginExtensionMap (plugins loaded) of
                  Inl err \<Rightarrow> Inl err
                | Inr extMap \<Rightarrow>
                    foldE (try_dir e cwd url extMap (lookup_key e url))
                      (possibleDirs mountedDirs url)
                      \<lparr>locOnDisk = None, lookups = []\<rparr>)))"

section \<open>A POSIX host for the examples\<close>

text \<open>
  The general results hold for every \<open>env\<close>. The examples run on this one: Node's
  \<open>path.posix\<close> as its documentation and source describe it, a table of installed
  modules and a set of existing files.
\<close>

fun join_slash :: "string list \<Rightarrow> string" where
  "join_slash [] = []"
| "join_slash [x] = x"
| "join_slash (x # y # r) = x @ ''/'' @ join_slash (y # r)"

text \<open>
  \<open>normalizeString\<close>: empty and \<open>.\<close> segments vanish, \<open>..\<close> removes the segment before it,
  and is kept when there is none to remove and the path is relative. \<open>acc\<close> holds the
  segments kept so far, last first.
\<close>

fun norm_segs :: "bool \<Rightarrow> string list \<Rightarrow> string list \<Rightarrow> string list" where
  "norm_segs up acc [] = rev acc"
| "norm_segs up acc (seg # rest) =
     (if seg = [] \<or> seg = ''.'' then norm_segs up acc rest
      else if seg = ''..'' then
        (case acc of
           [] \<Rightarrow> norm_segs up (if up then [''..''] else []) rest
         | prev # older \<Rightarrow>
             if prev = ''..'' then norm_segs up (if up then ''..'' # acc else acc) rest
             else norm_segs up older rest)
      else norm_segs up (seg # acc) rest)"

definition posix_normalize :: "string \<Rightarrow> string" where
  "posix_normalize p =
     (if p = [] then ''.''
      else
        (let isAbsolute = (hd p = CHR ''/''); trailingSeparator = (last p = CHR ''/'');
             r = join_slash (norm_segs (\<not> isAbsolute) [] (split (CHR ''/'') p))
         in if r = [] then (if isAbsolute then ''/'' else if trailingSeparator then ''./'' else ''.'')
            else (if isAbsolute then ''/'' else []) @ r @ (if trailingSeparator then ''/'' else [])))"

definition posix_join :: "string list \<Rightarrow> string" where
  "posix_join args =
     (let parts = filter (\<lambda>a. a \<noteq> []) args in
      if parts = [] then ''.'' else posix_normalize (join_slash parts))"

text \<open>\<open>resolve\<close> reads its arguments from the right until one is absolute, then the cwd.\<close>

fun resolve_acc :: "string list \<Rightarrow> string \<Rightarrow> string \<times> bool" where
  "resolve_acc [] acc = (acc, False)"
| "resolve_acc (p # ps) acc =
     (if p = [] then resolve_acc ps acc
      else if hd p = CHR ''/'' then (p @ ''/'' @ acc, True)
      else resolve_acc ps (p @ ''/'' @ acc))"

definition posix_resolve :: "string \<Rightarrow> string list \<Rightarrow> string" where
  "posix_resolve cwd args =
     (let ra = resolve_acc (rev (cwd # args)) [];
          r = join_slash (norm_segs (\<not> snd ra) [] (split (CHR ''/'') (fst ra)))
      in if snd ra then CHR ''/'' # r else if r \<noteq> [] then r else ''.'')"

text \<open>The last segment of a path, trailing slashes apart.\<close>

definition basename :: "string \<Rightarrow> string" where
  "basename p = last (split (CHR ''/'') (rev (dropWhile (\<lambda>c. c = CHR ''/'') (rev p))))"

text \<open>\<open>extname\<close>: from the last dot of the basename, unless that dot starts it; none for \<open>..\<close>.\<close>

definition posix_extname :: "string \<Rightarrow> string" where
  "posix_extname p =
     (let b = basename p; tail = rev (takeWhile (\<lambda>c. c \<noteq> CHR ''.'') (rev b)) in
      if CHR ''.'' \<notin> set b \<or> length tail + 1 = length b \<or> b = ''..'' then []
      else drop (length b - length tail - 1) b)"

text \<open>
  Modelled from the spec: \<open>getExt\<close> of \<open>../util\<close>, which is not among the sources. The
  spec: split the URL into its base extension and any expanded extension (\<open>.module.css\<close>
  has base \<open>.css\<close>, expanded \<open>.module.css\<close>).
\<close>

definition util_getExt :: "string \<Rightarrow> string \<times> string" where
  "util_getExt fileName =
     (toLowerCase (posix_extname fileName),
      toLowerCase (dropWhile (\<lambda>c. c \<noteq> CHR ''.'') (basename fileName)))"

text \<open>
  Modelled from the spec: \<open>replaceExt\<close> of \<open>../util\<close>, which is not among the sources. The
  spec: a candidate path substitutes the URL's extension with the candidate extension.
\<close>

definition util_replaceExt :: "string \<Rightarrow> string \<Rightarrow> string" where
  "util_replaceExt fileName newExt =
     take (length fileName - length (posix_extname fileName)) fileName @ newExt"

text \<open>
  A stand-in for yargs-parser on the command lines mount scripts use, \<open>dir\<close> and
  \<open>dir --to /url\<close>: \<open>--to\<close> takes the next token as its value, a \<open>--to\<close> in last place is
  the boolean \<open>true\<close>, every other token is positional.
\<close>

fun mount_args :: "string list \<Rightarrow> yargs_result" where
  "mount_args [] = \<lparr>to = Absent, positional = []\<rparr>"
| "mount_args (x # rest) =
     (if x = ''--to'' then
        (case rest of
           [] \<Rightarrow> \<lparr>to = NonString True, positional = []\<rparr>
         | v # rest' \<Rightarrow> (mount_args rest')\<lparr>to := Str v\<rparr>)
      else (let r = mount_args rest in r\<lparr>positional := x # positional r\<rparr>))"

text \<open>
  The host with the installed plugin modules \<open>modules\<close> (what each returns when called)
  and the existing files \<open>files\<close>, run from \<open>/project\<close>.
\<close>

definition host :: "(string \<Rightarrow> SnowpackPlugin option) \<Rightarrow> string list \<Rightarrow> env" where
  "host modules files =
     \<lparr>require_call = (\<lambda>specifier config options.
                        case modules specifier of
                          None \<Rightarrow> Inl (Thrown ''MODULE_NOT_FOUND'')
                        | Some plugin \<Rightarrow> Inr (Some plugin)),
      yargs = mount_args,
      existsSync = (\<lambda>p. p \<in> set files),
      process_cwd = ''/project'',
      path_join = posix_join,
      path_extname = posix_extname,
      path_posix_normalize = posix_normalize,
      path_posix_join = posix_join,
      path_posix_resolve = posix_resolve ''/project'',
      getExt = util_getExt,
      replaceExt = util_replaceExt\<rparr>"

text \<open>A plugin module that declares nothing but its build capability.\<close>

definition bare_plugin :: SnowpackPlugin where
  "bare_plugin = \<lparr>name = None, input = Many [], output = Many [], defaultBuildScript = None\<rparr>"

section \<open>Notions used in the statements\<close>

text \<open>\<open>x\<close> is an element of \<open>m[k]\<close>, an own property of \<open>m\<close>.\<close>

definition member_of :: "string list obj \<Rightarrow> string \<Rightarrow> string \<Rightarrow> bool" where
  "member_of m k x = (case obj_get m k of Own v \<Rightarrow> x \<in> set v | _ \<Rightarrow> False)"

text \<open>The first element of \<open>m[k]\<close>, if \<open>m[k]\<close> is an own, non-empty array.\<close>

definition first_of :: "string list obj \<Rightarrow> string \<Rightarrow> string option" where
  "first_of m k = (case obj_get m k of Own (x # rest) \<Rightarrow> Some x | _ \<Rightarrow> None)"

text \<open>No array stored in \<open>m\<close> repeats an element.\<close>

definition duplicate_free :: "string list obj \<Rightarrow> bool" where
  "duplicate_free m = list_all (\<lambda>p. distinct (snd p)) m"

text \<open>Every array stored in \<open>m\<close> starts with the key it is stored under.\<close>

definition keyed :: "string list obj \<Rightarrow> bool" where
  "keyed m = list_all (\<lambda>p. case snd p of [] \<Rightarrow> False | x # rest \<Rightarrow> x = fst p) m"

text \<open>\<open>m[k]\<close> is an own property of \<open>m\<close>.\<close>

definition is_own :: "'a obj \<Rightarrow> string \<Rightarrow> bool" where
  "is_own m k = (case obj_get m k of Own v \<Rightarrow> True | _ \<Rightarrow> False)"

text \<open>
  Every pair of an input and an output extension of the plugin is recorded in both
  directions.
\<close>

definition paired :: "ExtensionMap \<Rightarrow> SnowpackPlugin \<Rightarrow> bool" where
  "paired extMap P =
     (\<forall>i\<in>set (as_array (input P)). \<forall>x\<in>set (as_array (output P)).
        member_of (extMap_input extMap) i x \<and> member_of (extMap_output extMap) x i)"

text \<open>
  The paths tried under one mount entry for the candidate extensions \<open>exts\<close>: one per
  extension, in order, up to and including the first that exists.
\<close>

fun attempts :: "env \<Rightarrow> string \<Rightarrow> string \<Rightarrow> string \<Rightarrow> string list \<Rightarrow> string list" where
  "attempts e cwd url fromDisk [] = []"
| "attempts e cwd url fromDisk (ext # rest) =
     (let p = path_join e [cwd, fromDisk, replaceExt e url ext] in
      p # (if existsSync e p then [] else attempts e cwd url fromDisk rest))"

text \<open>The last element of a list, if it has one.\<close>

definition last_option :: "'a list \<Rightarrow> 'a option" where
  "last_option xs = (if xs = [] then None else Some (last xs))"

text \<open>The script id has the given type: \<open>parseScript\<close> returns it as \<open>scriptType\<close>.\<close>

definition script_type_is :: "string \<Rightarrow> string \<Rightarrow> bool" where
  "script_type_is ty target = (case parseScript target of Inr (t, exts) \<Rightarrow> t = ty | Inl err \<Rightarrow> False)"

text \<open>
  The scripts whose type is \<open>bundle\<close>, in iteration order; the bundler one of them
  assigns (lines 87 and 95); and the bundler the last of them assigns.
\<close>

definition bundle_scripts :: "SnowpackConfig \<Rightarrow> (string \<times> string) list" where
  "bundle_scripts config =
     filter (\<lambda>entry. script_type_is ''bundle'' (fst entry)) (config_scripts config)"

definition named_bundler :: "env \<Rightarrow> SnowpackConfig \<Rightarrow> string \<Rightarrow> SnowpackPlugin option" where
  "named_bundler e config bundlerName =
     (case loadPluginFromScript e config bundlerName of
        None \<Rightarrow> None
      | Some b \<Rightarrow> Some (if \<not> truthy_string (name b) then b\<lparr>name := Some bundlerName\<rparr> else b))"

definition last_bundler :: "env \<Rightarrow> SnowpackConfig \<Rightarrow> SnowpackPlugin option" where
  "last_bundler e config =
     (case bundle_scripts config of
        [] \<Rightarrow> None
      | b # bs \<Rightarrow> named_bundler e config (snd (last (b # bs))))"

text \<open>
  What \<open>locOnDisk\<close> and \<open>lookups\<close> say about each other: a found path was attempted and
  exists; with nothing found, no attempted path exists.
\<close>

definition consistent :: "env \<Rightarrow> Located \<Rightarrow> bool" where
  "consistent e st =
     (case locOnDisk st of
        Some p \<Rightarrow> p \<in> set (lookups st) \<and> existsSync e p
      | None \<Rightarrow> \<forall>p\<in>set (lookups st). \<not> existsSync e p)"


section \<open>Example inputs\<close>

definition sass_plugin :: SnowpackPlugin where
  "sass_plugin =
     \<lparr>name = Some ''sass'', input = Many [''.scss'', ''.sass''], output = One ''.css'',
      defaultBuildScript = None\<rparr>"

definition svelte_plugin :: SnowpackPlugin where
  "svelte_plugin =
     \<lparr>name = Some ''svelte'', input = One ''.svelte'', output = Many [''.js'', ''.css''],
      defaultBuildScript = None\<rparr>"

definition example_extMap :: ExtensionMap where
  "example_extMap =
     \<lparr>extMap_input =
        [(''.scss'', [''.css'']), (''.sass'', [''.css'']), (''.svelte'', [''.js'', ''.css''])],
      extMap_output =
        [(''.css'', [''.css'', ''.scss'', ''.sass'', ''.svelte'']),
         (''.js'', [''.js'', ''.svelte''])]\<rparr>"

text \<open>
  A project that mounts \<open>dist\<close> at \<open>/dist/\<close> and builds \<open>.css\<close> and \<open>.scss\<close> with one
  installed plugin.
\<close>

definition installed :: "string \<Rightarrow> SnowpackPlugin option" where
  "installed = [''sass'' \<mapsto> bare_plugin, ''babel'' \<mapsto> bare_plugin, ''webpack'' \<mapsto> bare_plugin,
                ''parcel'' \<mapsto> bare_plugin]"

definition css_project :: SnowpackConfig where
  "css_project =
     \<lparr>config_scripts = [(''mount:dist'', ''mount dist''), (''build:.css,.scss'', ''sass'')],
      config_plugins = [], config_baseUrl = ''/''\<rparr>"

text \<open>The same project with only the \<open>.scss\<close> candidate on disk, and with no file at all.\<close>

definition scss_only :: env where
  "scss_only = host installed [''/project/dist/dist/app.scss'']"

definition no_files :: env where
  "no_files = host installed []"

text \<open>Two bundle scripts, both naming an installed plugin; and one that is not installed.\<close>

definition two_bundlers :: SnowpackConfig where
  "two_bundlers =
     \<lparr>config_scripts = [(''bundle:*'', ''webpack''), (''bundle:js'', ''parcel'')],
      config_plugins = [], config_baseUrl = ''/''\<rparr>"

definition missing_bundler :: SnowpackConfig where
  "missing_bundler =
     \<lparr>config_scripts = [(''bundle:*'', ''rollup'')], config_plugins = [], config_baseUrl = ''/''\<rparr>"

text \<open>One plugin named by two build scripts.\<close>

definition babel_twice :: SnowpackConfig where
  "babel_twice =
     \<lparr>config_scripts = [(''build:js'', ''babel''), (''build:jsx'', ''babel'')],
      config_plugins = [], config_baseUrl = ''/''\<rparr>"

text \<open>A project that mounts \<open>dist\<close> and has no build script for \<open>.css\<close>.\<close>

definition mount_only :: SnowpackConfig where
  "mount_only =
     \<lparr>config_scripts = [(''mount:dist'', ''mount dist'')],
      config_plugins = [], config_baseUrl = ''/''\<rparr>"

text \<open>Two directories mounted at the root, each holding a file \<open>x.js\<close>.\<close>

definition two_mounts :: SnowpackConfig where
  "two_mounts =
     \<lparr>config_scripts = [(''mount:a'', ''mount a --to /''), (''mount:b'', ''mount b --to /''),
                         (''build:.js'', ''babel'')],
      config_plugins = [], config_baseUrl = ''/''\<rparr>"

definition both_files :: env where
  "both_files = host installed [''/project/a/x.js'', ''/project/b/x.js'']"

text \<open>
  The resolver's options for a file of the \<open>css_project\<close>, in dev mode and not bundled,
  with an import map that knows \<open>lodash\<close> and a stylesheet package.
\<close>

definition example_options :: ImportResolverOptions where
  "example_options =
     \<lparr>fileLoc = ''src/index.js'', webModulesPath = ''/web_modules'',
      dependencyImportMap =
        Some \<lparr>imports = [(''lodash'', ''lodash.js''), (''normalize.css'', ''normalize.css'')]\<rparr>,
      isDev = True, isBundled = False, options_config = css_project\<rparr>"

text \<open>
  A scope in which the identifiers the module leaves undeclared would be bound: no mount
  entry matched, and a resolver for path-like specifiers that returns them unchanged.
\<close>

definition bound_scope :: scope where
  "bound_scope =
     \<lparr>global_name = Bound [], matchedDir = Bound None,
      resolveSourceSpecifier = Bound (\<lambda>spec bundled. Inr spec), importStats = Bound ()\<rparr>"

text \<open>The \<open>css_project\<close> with \<open>app.scss\<close> in the mounted directory itself.\<close>

definition scss_in_dist :: env where
  "scss_in_dist = host installed [''/project/dist/app.scss'']"

text \<open>The state \<open>loadPlugins\<close> starts its loop over the scripts in.\<close>

definition initial_state :: LoadState where
  "initial_state = \<lparr>bundler = None, runCommands = [], buildCommands = [], scriptPlugins = []\<rparr>"

section \<open>Properties\<close>

subsection \<open>Loops, sets and objects\<close>

lemma handleError_exit [simp]: "handleError msg = Inl (ProcessExit msg)"
  by (simp add: handleError_def)

lemma foldE_invariant:
  assumes "foldE f xs s = Inr s'" and "P s"
    and "\<And>s x s'. x \<in> set xs \<Longrightarrow> P s \<Longrightarrow> f s x = Inr s' \<Longrightarrow> P s'"
  shows "P s'"
  using assms
proof (induction xs arbitrary: s)
  case Nil
  then show ?case by simp
next
  case (Cons x xs)
  from Cons.prems(1) obtain s1 where s1: "f s x = Inr s1" and rest: "foldE f xs s1 = Inr s'"
    by (auto split: sum.splits)
  have p1: "P s1" by (rule Cons.prems(3)[of x s s1]) (simp_all add: Cons.prems(2) s1)
  show ?case
  proof (rule Cons.IH[OF rest p1])
    fix y t t' assume "y \<in> set xs" "P t" "f t y = Inr t'"
    then show "P t'" using Cons.prems(3)[of y t t'] by simp
  qed
qed

lemma foldE_each:
  assumes "foldE f xs s = Inr s'"
    and step: "\<And>s x s'. x \<in> set xs \<Longrightarrow> f s x = Inr s' \<Longrightarrow> Q x s'"
    and keep: "\<And>s y s' x. y \<in> set xs \<Longrightarrow> f s y = Inr s' \<Longrightarrow> Q x s \<Longrightarrow> Q x s'"
  shows "\<forall>x\<in>set xs. Q x s'"
  using assms
proof (induction xs arbitrary: s)
  case Nil
  then show ?case by simp
next
  case (Cons x xs)
  from Cons.prems(1) obtain s1 where s1: "f s x = Inr s1" and rest: "foldE f xs s1 = Inr s'"
    by (auto split: sum.splits)
  have q1: "Q x s1" by (rule Cons.prems(2)[of x s s1]) (simp_all add: s1)
  have keep': "Q z t'" if "y \<in> set xs" "f t y = Inr t'" "Q z t" for t y t' z
    by (rule Cons.prems(3)[of y t t' z]) (use that in simp_all)
  have step': "Q y t'" if "y \<in> set xs" "f t y = Inr t'" for t y t'
    by (rule Cons.prems(2)[of y t t']) (use that in simp_all)
  have "Q x s'"
    by (rule foldE_invariant[OF rest, where P = "Q x"]) (use q1 keep' in blast)+
  moreover have "\<forall>y\<in>set xs. Q y s'"
    by (rule Cons.IH[OF rest]) (use step' keep' in blast)+
  ultimately show ?case by simp
qed

lemma foldE_append:
  "foldE f (xs @ ys) s = (case foldE f xs s of Inl err \<Rightarrow> Inl err | Inr s' \<Rightarrow> foldE f ys s')"
  by (induction xs arbitrary: s) (auto split: sum.splits)

lemma foldE_returns:
  assumes "\<And>s x. x \<in> set xs \<Longrightarrow> \<exists>s'. f s x = Inr s'"
  shows "\<exists>s'. foldE f xs s = Inr s'"
  using assms
proof (induction xs arbitrary: s)
  case Nil
  then show ?case by simp
next
  case (Cons x xs)
  obtain s1 where "f s x = Inr s1" using Cons.prems[of x s] by auto
  moreover obtain s' where "foldE f xs s1 = Inr s'" using Cons.IH[of s1] Cons.prems by auto
  ultimately show ?case by simp
qed


lemma set_set_add_all [simp]: "set (set_add_all acc xs) = set acc \<union> set xs"
  by (induction xs arbitrary: acc) auto

lemma distinct_set_add_all: "distinct acc \<Longrightarrow> distinct (set_add_all acc xs)"
  by (induction xs arbitrary: acc) auto

lemma set_uniq [simp]: "set (uniq xs) = set xs"
  by (simp add: uniq_def)

lemma distinct_uniq [simp]: "distinct (uniq xs)"
  by (simp add: uniq_def distinct_set_add_all)


lemma obj_get_obj_set:
  "obj_get m k \<noteq> Inherited \<Longrightarrow>
   obj_get (obj_set m k v) k' = (if k' = k then Own v else obj_get m k')"
  by (auto simp: obj_get_def obj_set_def update_conv' proto_keys_def split: option.splits if_splits)

subsection \<open>parseScript\<close>

lemma replace_leading_dot_added [simp]: "replace_leading_dot (CHR ''.'' # ext) = ext"
  by (simp add: replace_leading_dot_def)

lemma parseScript_extensions:
  assumes "split (CHR '':'') (toLowerCase script) = scriptType # extMatch # rest"
  shows "parseScript script = Inr (scriptType, uniq (map trim (split (CHR '','') extMatch)))"
  using assms by (simp add: parseScript_def)

lemma parseScript_distinct: "parseScript script = Inr (scriptType, extensions) \<Longrightarrow> distinct extensions"
  by (auto simp: parseScript_def split: list.splits)

text \<open>
  C7. Each extension parseScript records for a \<open>build:<extensions>\<close> script id should be
  dot-prefixed. The code adds a dot and removes it again in the same expression, so the
  script id \<open>build:js,jsx\<close> yields the extensions \<open>js\<close> and \<open>jsx\<close>, without dots.
\<close>

theorem parseScript_build_js_jsx:
  "parseScript ''build:js,jsx'' = Inr (''build'', [''js'', ''jsx''])"
  by (simp add: parseScript_def toLowerCase_def lower_char_def uniq_def trim_def is_space_def)

subsection \<open>loadPlugins\<close>

lemma script_step_bundle:
  assumes "script_type_is ''bundle'' target"
  shows "script_step e config st (target, c) =
           (case named_bundler e config c of
              None \<Rightarrow> Inl (ProcessExit (BundlerLoadFailed c))
            | Some b \<Rightarrow> Inr (st\<lparr>bundler := Some b\<rparr>))"
  using assms
  by (auto simp: script_type_is_def script_step_def named_bundler_def Let_def
           split: sum.splits prod.splits option.splits)

lemma script_step_other:
  assumes "\<not> script_type_is ''bundle'' target" and "script_step e config st (target, c) = Inr st'"
  shows "bundler st' = bundler st"
  using assms
  by (auto simp: script_type_is_def script_step_def Let_def
           split: sum.splits prod.splits option.splits lookup.splits if_splits)

lemma scripts_bundler:
  assumes "foldE (script_step e config) xs st = Inr st'"
  shows "(\<forall>entry\<in>set (filter (\<lambda>entry. script_type_is ''bundle'' (fst entry)) xs).
            loadPluginFromScript e config (snd entry) \<noteq> None)
         \<and> bundler st' =
             (case filter (\<lambda>entry. script_type_is ''bundle'' (fst entry)) xs of
                [] \<Rightarrow> bundler st
              | b # bs \<Rightarrow> named_bundler e config (snd (last (b # bs))))"
  using assms
proof (induction xs arbitrary: st)
  case Nil
  then show ?case by simp
next
  case (Cons x xs)
  obtain target c where x: "x = (target, c)" by (cases x)
  from Cons.prems obtain s1 where s1: "script_step e config st (target, c) = Inr s1"
    and rest: "foldE (script_step e config) xs s1 = Inr st'"
    by (auto simp: x split: sum.splits)
  note IH = Cons.IH[OF rest]
  show ?case
  proof (cases "script_type_is ''bundle'' target")
    case True
    from s1 obtain b where b: "named_bundler e config c = Some b" and "s1 = st\<lparr>bundler := Some b\<rparr>"
      by (auto simp: script_step_bundle[OF True] split: option.splits)
    then have "bundler s1 = named_bundler e config c" by simp
    moreover have "loadPluginFromScript e config c \<noteq> None"
      using b by (auto simp: named_bundler_def split: option.splits)
    ultimately show ?thesis using IH True
      by (auto simp: x split: list.splits)
  next
    case False
    then show ?thesis using IH script_step_other[OF False s1]
      by (auto simp: x split: list.splits)
  qed
qed

lemma loadPlugins_Inr:
  assumes "loadPlugins sc e config = Inr r"
  shows "\<exists>st. foldE (script_step e config) (config_scripts config)
                \<lparr>bundler = None, runCommands = [], buildCommands = [], scriptPlugins = []\<rparr> = Inr st
              \<and> bundler r = bundler st"
  using assms by (auto simp: loadPlugins_def split: sum.splits)

text \<open>
  C6. As stated: at most one bundler is accepted, a configuration with more than one
  \<open>bundle:\<close> script being a fatal error. The code has no such check: with two \<open>bundle:\<close>
  scripts whose plugins both load, loadPlugins returns normally and the second one is the
  bundler.
\<close>

theorem loadPlugins_two_bundlers_accepted:
  "loadPlugins module_scope no_files two_bundlers
     = Inr \<lparr>bundler = Some \<lparr>name = Some ''parcel'', input = Many [], output = Many [],
                             defaultBuildScript = None\<rparr>,
            runCommands = [], buildCommands = [], plugins = []\<rparr>"
  by code_simp

text \<open>
  C6, as amended. A \<open>bundle:\<close> script whose plugin fails to load is a fatal configuration
  error: the loop body exits the process on it, so loadPlugins returns only if every
  \<open>bundle:\<close> script loaded its plugin. Any number of them is accepted, and the bundler
  returned is the one the last \<open>bundle:\<close> script loaded.
\<close>

theorem loadPlugins_bundler:
  "(script_type_is ''bundle'' target \<longrightarrow> loadPluginFromScript e config c = None \<longrightarrow>
      script_step e config st (target, c) = Inl (ProcessExit (BundlerLoadFailed c)))
   \<and> (loadPlugins sc e config = Inr r \<longrightarrow>
        (\<forall>entry\<in>set (bundle_scripts config). loadPluginFromScript e config (snd entry) \<noteq> None)
        \<and> bundler r = last_bundler e config)"
proof (intro conjI impI)
  assume "script_type_is ''bundle'' target" and "loadPluginFromScript e config c = None"
  then show "script_step e config st (target, c) = Inl (ProcessExit (BundlerLoadFailed c))"
    by (simp add: script_step_bundle named_bundler_def)
next
  assume "loadPlugins sc e config = Inr r"
  from loadPlugins_Inr[OF this] obtain st where
    f: "foldE (script_step e config) (config_scripts config)
          \<lparr>bundler = None, runCommands = [], buildCommands = [], scriptPlugins = []\<rparr> = Inr st"
    and b: "bundler r = bundler st" by blast
  note S = scripts_bundler[OF f]
  show "\<forall>entry\<in>set (bundle_scripts config). loadPluginFromScript e config (snd entry) \<noteq> None"
    using S by (simp add: bundle_scripts_def)
  show "bundler r = last_bundler e config"
    using S b by (simp add: last_bundler_def bundle_scripts_def split: list.splits)
qed

lemma loadPlugins_bundle_load_failure:
  assumes "config_scripts config = before @ (target, c) # after"
    and "foldE (script_step e config) before initial_state = Inr st"
    and "script_type_is ''bundle'' target" and "loadPluginFromScript e config c = None"
  shows "loadPlugins sc e config = Inl (ProcessExit (BundlerLoadFailed c))"
  using assms(1,2) script_step_bundle[OF assms(3), of e config st c] assms(4)
  by (simp add: loadPlugins_def foldE_append initial_state_def named_bundler_def)

theorem loadPlugins_bundler_witness:
  "script_type_is ''bundle'' ''bundle:*''
   \<and> loadPluginFromScript no_files missing_bundler ''rollup'' = None
   \<and> script_step no_files missing_bundler initial_state (''bundle:*'', ''rollup'')
       = Inl (ProcessExit (BundlerLoadFailed ''rollup''))
   \<and> loadPlugins module_scope no_files two_bundlers
       = Inr \<lparr>bundler = Some (bare_plugin\<lparr>name := Some ''parcel''\<rparr>),
              runCommands = [], buildCommands = [], plugins = []\<rparr>
   \<and> bundle_scripts two_bundlers = [(''bundle:*'', ''webpack''), (''bundle:js'', ''parcel'')]
   \<and> loadPluginFromScript no_files two_bundlers ''webpack'' \<noteq> None
   \<and> loadPluginFromScript no_files two_bundlers ''parcel'' \<noteq> None
   \<and> last_bundler no_files two_bundlers = Some (bare_plugin\<lparr>name := Some ''parcel''\<rparr>)"
proof -
  have ty: "script_type_is ''bundle'' ''bundle:*''" by code_simp
  have missing: "loadPluginFromScript no_files missing_bundler ''rollup'' = None" by code_simp
  have run: "loadPlugins module_scope no_files two_bundlers
       = Inr \<lparr>bundler = Some (bare_plugin\<lparr>name := Some ''parcel''\<rparr>),
              runCommands = [], buildCommands = [], plugins = []\<rparr>"
    by code_simp
  have scripts: "bundle_scripts two_bundlers
                   = [(''bundle:*'', ''webpack''), (''bundle:js'', ''parcel'')]"
    by code_simp
  note inst1 = loadPlugins_bundler[of "''bundle:*''" no_files missing_bundler "''rollup''"
                 initial_state, THEN conjunct1, rule_format, OF ty missing]
  note inst2 = loadPlugins_bundler[of _ no_files two_bundlers _ _ module_scope,
                 THEN conjunct2, rule_format, OF run]
  have loaded: "loadPluginFromScript no_files two_bundlers ''webpack'' \<noteq> None"
               "loadPluginFromScript no_files two_bundlers ''parcel'' \<noteq> None"
    using inst2[THEN conjunct1] by (simp_all add: scripts)
  have last: "last_bundler no_files two_bundlers = Some (bare_plugin\<lparr>name := Some ''parcel''\<rparr>)"
    using inst2[THEN conjunct2] by simp
  show ?thesis using ty missing inst1 run scripts loaded last by simp
qed

text \<open>Once a script plugin is registered it stays registered.\<close>

lemma script_step_keeps_own:
  assumes "script_step e config st (target, c) = Inr st'" and "is_own (scriptPlugins st) k"
  shows "is_own (scriptPlugins st') k"
  using assms
  by (auto simp: script_step_def Let_def is_own_def obj_get_obj_set
           split: sum.splits prod.splits option.splits lookup.splits if_splits)

lemma script_step_build_registers:
  assumes "script_type_is ''build'' target" and "loadPluginFromScript e config c \<noteq> None"
    and "script_step e config st (target, c) = Inr st'"
  shows "is_own (scriptPlugins st') c" and "\<not> is_own (scriptPlugins st) c"
  using assms
  by (auto simp: script_type_is_def script_step_def Let_def is_own_def obj_get_obj_set
           split: sum.splits prod.splits option.splits lookup.splits if_splits)

lemma scripts_keep_own:
  assumes "foldE (script_step e config) xs st = Inr st'" and "is_own (scriptPlugins st) k"
  shows "is_own (scriptPlugins st') k"
  by (rule foldE_invariant[OF assms(1), where P = "\<lambda>s. is_own (scriptPlugins s) k"])
     (auto intro: assms(2) script_step_keeps_own)

lemma loadPlugins_plugin_twice:
  assumes "config_scripts config = xs @ (t1, c) # ys @ (t2, c) # zs"
    and "script_type_is ''build'' t1" and "script_type_is ''build'' t2"
    and "loadPluginFromScript e config c \<noteq> None"
  shows "\<exists>err. loadPlugins sc e config = Inl err"
proof (rule ccontr)
  assume "\<nexists>err. loadPlugins sc e config = Inl err"
  then obtain r where "loadPlugins sc e config = Inr r" by (cases "loadPlugins sc e config") auto
  from loadPlugins_Inr[OF this] obtain st where
    "foldE (script_step e config) (xs @ (t1, c) # ys @ (t2, c) # zs)
       \<lparr>bundler = None, runCommands = [], buildCommands = [], scriptPlugins = []\<rparr> = Inr st"
    using assms(1) by auto
  then obtain a b d f where
    "script_step e config a (t1, c) = Inr b" and ys: "foldE (script_step e config) ys b = Inr d"
    and second: "script_step e config d (t2, c) = Inr f"
    by (auto simp: foldE_append split: sum.splits)
  then have "is_own (scriptPlugins b) c"
    using script_step_build_registers(1)[OF assms(2,4)] by blast
  then have "is_own (scriptPlugins d) c" using scripts_keep_own[OF ys] by blast
  then show False using script_step_build_registers(2)[OF assms(3,4) second] by blast
qed

text \<open>
  C5. A plugin loaded by two or more \<open>build:\<close> scripts should end up as one descriptor
  whose input and output sets are the deduplicated union of the scripts' extensions (the
  comment on line 64 says so). The code raises on the second script instead: with
  \<open>build:js\<close> and \<open>build:jsx\<close> both naming the installed plugin \<open>babel\<close>, loadPlugins ends
  in a TypeError and produces no descriptor.
\<close>

theorem loadPlugins_babel_twice:
  "loadPlugins module_scope no_files babel_twice = Inl TypeError"
  by code_simp

text \<open>
  In the scope the module runs in, line 129 raises for every entry of \<open>config.plugins\<close>
  that gets that far: loadPlugins returns only when \<open>config.plugins\<close> is empty.
\<close>

lemma plugin_step_module_scope:
  "\<exists>err. plugin_step module_scope e config loaded ps ref = Inl err"
  by (auto simp: plugin_step_def module_scope_def Let_def
           split: lookup.splits sum.splits option.splits prod.splits)

lemma loadPlugins_module_scope_plugins:
  assumes "config_plugins config \<noteq> []"
  shows "\<exists>err. loadPlugins module_scope e config = Inl err"
proof -
  obtain ref refs where refs: "config_plugins config = ref # refs"
    using assms by (cases "config_plugins config") auto
  show ?thesis
  proof (cases "foldE (script_step e config) (config_scripts config)
                  \<lparr>bundler = None, runCommands = [], buildCommands = [], scriptPlugins = []\<rparr>")
    case (Inl err)
    then show ?thesis by (simp add: loadPlugins_def)
  next
    case (Inr st)
    obtain err where "plugin_step module_scope e config (scriptPlugins st)
                        (obj_values (scriptPlugins st)) ref = Inl err"
      using plugin_step_module_scope by blast
    then show ?thesis using Inr refs by (simp add: loadPlugins_def)
  qed
qed

subsection \<open>createPluginExtensionMap\<close>

lemma set_update_subset: "set (AList.update k v m) \<subseteq> insert (k, v) (set m)"
  by (induction m) auto

lemma duplicate_free_obj_set:
  "duplicate_free m \<Longrightarrow> distinct v \<Longrightarrow> duplicate_free (obj_set m k v)"
  using set_update_subset[of k v m]
  by (auto simp: duplicate_free_def obj_set_def list_all_iff)

lemma add_input_Inr:
  assumes "add_input outs m i = Inr m'"
  shows "obj_get m i \<noteq> Inherited"
    and "m' = obj_set m i (uniq ((case obj_get m i of Own cur \<Rightarrow> cur | _ \<Rightarrow> []) @ outs))"
  using assms by (auto simp: add_input_def split: lookup.splits)

lemma add_output_Inr:
  assumes "add_output ins m ext = Inr m'"
  shows "obj_get m ext \<noteq> Inherited"
    and "m' = obj_set m ext (uniq ((case obj_get m ext of Own cur \<Rightarrow> cur | _ \<Rightarrow> [ext]) @ ins))"
  using assms by (auto simp: add_output_def split: lookup.splits)

lemma add_input_member:
  assumes "add_input outs m i = Inr m'" and "x \<in> set outs"
  shows "member_of m' i x"
  using add_input_Inr[OF assms(1)] assms(2)
  by (simp add: member_of_def obj_get_obj_set)

lemma add_input_keeps:
  assumes "add_input outs m i = Inr m'" and "member_of m k x"
  shows "member_of m' k x"
  using add_input_Inr[OF assms(1)] assms(2)
  by (auto simp: member_of_def obj_get_obj_set split: lookup.splits)

lemma add_input_duplicate_free:
  assumes "add_input outs m i = Inr m'" and "duplicate_free m"
  shows "duplicate_free m'"
  using add_input_Inr[OF assms(1)] assms(2)
  by (simp add: duplicate_free_obj_set)

lemma add_output_member:
  assumes "add_output ins m ext = Inr m'" and "x \<in> set ins"
  shows "member_of m' ext x"
  using add_output_Inr[OF assms(1)] assms(2)
  by (simp add: member_of_def obj_get_obj_set)

lemma add_output_keeps:
  assumes "add_output ins m ext = Inr m'" and "member_of m k x"
  shows "member_of m' k x"
  using add_output_Inr[OF assms(1)] assms(2)
  by (auto simp: member_of_def obj_get_obj_set split: lookup.splits)

lemma add_output_duplicate_free:
  assumes "add_output ins m ext = Inr m'" and "duplicate_free m"
  shows "duplicate_free m'"
  using add_output_Inr[OF assms(1)] assms(2)
  by (simp add: duplicate_free_obj_set)



lemma keyed_Own:
  assumes "keyed m" and "obj_get m k = Own v"
  shows "\<exists>r. v = k # r"
proof -
  from assms(2) have mem: "(k, v) \<in> set m"
    by (auto simp: obj_get_def split: option.splits if_splits dest: map_of_SomeD)
  have "\<forall>p\<in>set m. case snd p of [] \<Rightarrow> False | x # rest \<Rightarrow> x = fst p"
    using assms(1) unfolding keyed_def list_all_iff .
  then have "case snd (k, v) of [] \<Rightarrow> False | x # rest \<Rightarrow> x = fst (k, v)"
    using mem by (rule bspec)
  then show ?thesis by (cases v) auto
qed


lemma first_of_keyed:
  "keyed m \<Longrightarrow> member_of m k x \<Longrightarrow> first_of m k = Some k"
  by (auto simp: member_of_def first_of_def split: lookup.splits list.splits dest: keyed_Own)

subsubsection \<open>One plugin\<close>

lemma add_plugin_Inr:
  assumes "add_plugin extMap P = Inr extMap'"
  shows "foldE (add_input (as_array (output P))) (as_array (input P)) (extMap_input extMap)
           = Inr (extMap_input extMap')"
    and "foldE (add_output (as_array (input P))) (as_array (output P)) (extMap_output extMap)
           = Inr (extMap_output extMap')"
  using assms by (auto simp: add_plugin_def Let_def split: sum.splits)

lemma add_plugin_keeps:
  assumes "add_plugin extMap P = Inr extMap'"
  shows "member_of (extMap_input extMap) k x \<Longrightarrow> member_of (extMap_input extMap') k x"
    and "member_of (extMap_output extMap) k x \<Longrightarrow> member_of (extMap_output extMap') k x"
proof -
  show "member_of (extMap_input extMap) k x \<Longrightarrow> member_of (extMap_input extMap') k x"
    by (rule foldE_invariant[OF add_plugin_Inr(1)[OF assms], where P = "\<lambda>m. member_of m k x"])
       (auto intro: add_input_keeps)
  show "member_of (extMap_output extMap) k x \<Longrightarrow> member_of (extMap_output extMap') k x"
    by (rule foldE_invariant[OF add_plugin_Inr(2)[OF assms], where P = "\<lambda>m. member_of m k x"])
       (auto intro: add_output_keeps)
qed

lemma add_plugin_pairs:
  assumes "add_plugin extMap P = Inr extMap'"
    and "i \<in> set (as_array (input P))" and "x \<in> set (as_array (output P))"
  shows "member_of (extMap_input extMap') i x" and "member_of (extMap_output extMap') x i"
proof -
  have "\<forall>j\<in>set (as_array (input P)). member_of (extMap_input extMap') j x"
    by (rule foldE_each[OF add_plugin_Inr(1)[OF assms(1)]])
       (auto intro: add_input_member add_input_keeps assms(3))
  then show "member_of (extMap_input extMap') i x" using assms(2) by blast
  have "\<forall>y\<in>set (as_array (output P)). member_of (extMap_output extMap') y i"
    by (rule foldE_each[OF add_plugin_Inr(2)[OF assms(1)]])
       (auto intro: add_output_member add_output_keeps assms(2))
  then show "member_of (extMap_output extMap') x i" using assms(3) by blast
qed

lemma add_plugin_duplicate_free:
  assumes "add_plugin extMap P = Inr extMap'"
  shows "duplicate_free (extMap_input extMap) \<Longrightarrow> duplicate_free (extMap_input extMap')"
    and "duplicate_free (extMap_output extMap) \<Longrightarrow> duplicate_free (extMap_output extMap')"
proof -
  show "duplicate_free (extMap_input extMap) \<Longrightarrow> duplicate_free (extMap_input extMap')"
    by (rule foldE_invariant[OF add_plugin_Inr(1)[OF assms], where P = duplicate_free])
       (auto intro: add_input_duplicate_free)
  show "duplicate_free (extMap_output extMap) \<Longrightarrow> duplicate_free (extMap_output extMap')"
    by (rule foldE_invariant[OF add_plugin_Inr(2)[OF assms], where P = duplicate_free])
       (auto intro: add_output_duplicate_free)
qed


subsubsection \<open>A list of plugins\<close>

lemma extension_map_paired:
  assumes "foldE add_plugin ps extMap = Inr extMap'"
  shows "\<forall>P\<in>set ps. paired extMap' P"
  by (rule foldE_each[OF assms])
     (auto simp: paired_def intro: add_plugin_pairs add_plugin_keeps)

lemma extension_map_duplicate_free:
  assumes "foldE add_plugin ps extMap = Inr extMap'"
    and "duplicate_free (extMap_input extMap)" and "duplicate_free (extMap_output extMap)"
  shows "duplicate_free (extMap_input extMap') \<and> duplicate_free (extMap_output extMap')"
  by (rule foldE_invariant[OF assms(1),
        where P = "\<lambda>m. duplicate_free (extMap_input m) \<and> duplicate_free (extMap_output m)"])
     (auto intro: add_plugin_duplicate_free assms(2,3))







lemma add_input_returns: "i \<notin> set proto_keys \<Longrightarrow> \<exists>m'. add_input outs m i = Inr m'"
  by (auto simp: add_input_def obj_get_def split: lookup.splits option.splits)

lemma add_output_returns: "x \<notin> set proto_keys \<Longrightarrow> \<exists>m'. add_output ins m x = Inr m'"
  by (auto simp: add_output_def obj_get_def split: lookup.splits option.splits)

lemma add_plugin_returns:
  assumes "\<forall>x\<in>set (as_array (input P) @ as_array (output P)). x \<notin> set proto_keys"
  shows "\<exists>extMap'. add_plugin extMap P = Inr extMap'"
proof -
  obtain mi where mi: "foldE (add_input (as_array (output P))) (as_array (input P))
                         (extMap_input extMap) = Inr mi"
    using foldE_returns[of "as_array (input P)" "add_input (as_array (output P))"]
          add_input_returns assms by (metis Un_iff set_append)
  obtain mo where mo: "foldE (add_output (as_array (input P))) (as_array (output P))
                         (extMap_output extMap) = Inr mo"
    using foldE_returns[of "as_array (output P)" "add_output (as_array (input P))"]
          add_output_returns assms by (metis Un_iff set_append)
  show ?thesis using mi mo by (simp add: add_plugin_def)
qed

lemma createPluginExtensionMap_returns:
  assumes "\<forall>P\<in>set ps. \<forall>x\<in>set (as_array (input P) @ as_array (output P)). x \<notin> set proto_keys"
  shows "\<exists>extMap. createPluginExtensionMap ps = Inr extMap"
  unfolding createPluginExtensionMap_def
  by (rule foldE_returns) (use assms add_plugin_returns in blast)

lemma empty_maps [simp]: "duplicate_free []" "keyed []"
  by (simp_all add: duplicate_free_def keyed_def)

text \<open>
  C1. For every list of plugins, the extension map that createPluginExtensionMap returns
  records every pair of an input extension \<open>i\<close> and an output extension \<open>o\<close> of every
  plugin in both directions (\<open>o\<close> is in \<open>input[i]\<close> and \<open>i\<close> is in \<open>output[o]\<close>), and no array
  of either mapping repeats an element. It does return a map whenever no extension is the
  name of a property of \<open>Object.prototype\<close>; for such a name line 173 or 179 raises.
\<close>

theorem createPluginExtensionMap_pairs:
  "(createPluginExtensionMap ps = Inr extMap \<longrightarrow>
      (\<forall>P\<in>set ps. paired extMap P)
      \<and> duplicate_free (extMap_input extMap) \<and> duplicate_free (extMap_output extMap))
   \<and> ((\<forall>P\<in>set ps. \<forall>x\<in>set (as_array (input P) @ as_array (output P)). x \<notin> set proto_keys)
        \<longrightarrow> (\<exists>m. createPluginExtensionMap ps = Inr m))"
proof (intro conjI impI)
  assume r: "createPluginExtensionMap ps = Inr extMap"
  then have f: "foldE add_plugin ps \<lparr>extMap_input = [], extMap_output = []\<rparr> = Inr extMap"
    by (simp add: createPluginExtensionMap_def)
  show "\<forall>P\<in>set ps. paired extMap P" by (rule extension_map_paired[OF f])
  show "duplicate_free (extMap_input extMap)" "duplicate_free (extMap_output extMap)"
    using extension_map_duplicate_free[OF f] by simp_all
next
  assume "\<forall>P\<in>set ps. \<forall>x\<in>set (as_array (input P) @ as_array (output P)). x \<notin> set proto_keys"
  then show "\<exists>m. createPluginExtensionMap ps = Inr m" by (rule createPluginExtensionMap_returns)
qed

theorem createPluginExtensionMap_pairs_witness:
  "createPluginExtensionMap [sass_plugin, svelte_plugin] = Inr example_extMap
   \<and> paired example_extMap sass_plugin \<and> paired example_extMap svelte_plugin
   \<and> duplicate_free (extMap_input example_extMap)
   \<and> duplicate_free (extMap_output example_extMap)
   \<and> (\<exists>m. createPluginExtensionMap [sass_plugin, svelte_plugin] = Inr m)"
proof -
  have ev: "createPluginExtensionMap [sass_plugin, svelte_plugin] = Inr example_extMap"
    by code_simp
  have names: "\<forall>P\<in>set [sass_plugin, svelte_plugin].
                 \<forall>x\<in>set (as_array (input P) @ as_array (output P)). x \<notin> set proto_keys"
    by (simp add: sass_plugin_def svelte_plugin_def proto_keys_def)
  show ?thesis
    using createPluginExtensionMap_pairs[of "[sass_plugin, svelte_plugin]" example_extMap] ev names
    by simp
qed

text \<open>A name no plugin declares as an output is not a property of the output mapping.\<close>

lemma add_output_own_keys:
  assumes "add_output ins m ext = Inr m'" and "is_own m' k"
  shows "k = ext \<or> is_own m k"
  using add_output_Inr[OF assms(1)] assms(2)
  by (auto simp: is_own_def obj_get_obj_set split: lookup.splits if_splits)

lemma foldE_add_output_own_keys:
  assumes "foldE (add_output ins) outs m = Inr m'" and "is_own m' k"
  shows "k \<in> set outs \<or> is_own m k"
  using assms
proof (induction outs arbitrary: m)
  case Nil
  then show ?case by simp
next
  case (Cons x outs)
  from Cons.prems(1) obtain m1 where m1: "add_output ins m x = Inr m1"
    and rest: "foldE (add_output ins) outs m1 = Inr m'"
    by (auto split: sum.splits)
  from Cons.IH[OF rest Cons.prems(2)] show ?case
    using add_output_own_keys[OF m1] by auto
qed

lemma extension_map_own_keys:
  assumes "foldE add_plugin ps extMap = Inr extMap'" and "is_own (extMap_output extMap') k"
  shows "(\<exists>P\<in>set ps. k \<in> set (as_array (output P))) \<or> is_own (extMap_output extMap) k"
  using assms
proof (induction ps arbitrary: extMap)
  case Nil
  then show ?case by simp
next
  case (Cons P ps)
  from Cons.prems(1) obtain m1 where m1: "add_plugin extMap P = Inr m1"
    and rest: "foldE add_plugin ps m1 = Inr extMap'"
    by (auto split: sum.splits)
  from Cons.IH[OF rest Cons.prems(2)] show ?case
    using foldE_add_output_own_keys[OF add_plugin_Inr(2)[OF m1]] by auto
qed

lemma undeclared_output_unmapped:
  assumes "createPluginExtensionMap ps = Inr extMap"
    and "\<forall>P\<in>set ps. k \<notin> set (as_array (output P))"
  shows "\<not> is_own (extMap_output extMap) k"
proof
  assume "is_own (extMap_output extMap) k"
  from extension_map_own_keys[OF assms(1)[unfolded createPluginExtensionMap_def] this] assms(2)
  show False by (auto simp: is_own_def obj_get_def split: if_splits)
qed

subsection \<open>createImportResolver\<close>

lemma importResolver_protocol:
  "URL_HAS_PROTOCOL_REGEX_test spec \<Longrightarrow> importResolver sc e opts spec = Inr (Url spec)"
  by (simp add: importResolver_def)

lemma importResolver_module_scope:
  "\<not> URL_HAS_PROTOCOL_REGEX_test spec \<Longrightarrow>
   importResolver module_scope e opts spec = Inl (ReferenceError ''matchedDir'')"
  by (simp add: importResolver_def module_scope_def)

lemma importResolver_mount_branch:
  assumes "matchedDir sc = Bound (Some d)" and "\<not> URL_HAS_PROTOCOL_REGEX_test spec"
  shows "\<exists>ident. importResolver sc e opts spec = Inl (ReferenceError ident)"
  using assms by (cases d) (auto simp: importResolver_def split: binding.splits)

lemma importResolver_bound_unresolvable:
  assumes "matchedDir sc = Bound None" and "\<not> URL_HAS_PROTOCOL_REGEX_test spec"
    and "\<not> startsWith spec ''/''" and "\<not> startsWith spec ''./''" and "\<not> startsWith spec ''../''"
    and "case dependencyImportMap opts of
           None \<Rightarrow> True
         | Some importMap \<Rightarrow> obj_get (imports importMap) spec = Undefined"
  shows "importResolver sc e opts spec = Inr JsFalse"
  using assms by (auto simp: importResolver_def split: option.splits)

lemma importResolver_bound_mapped:
  assumes "matchedDir sc = Bound None" and "\<not> URL_HAS_PROTOCOL_REGEX_test spec"
    and "\<not> startsWith spec ''/''" and "\<not> startsWith spec ''./''" and "\<not> startsWith spec ''../''"
    and "dependencyImportMap opts = Some importMap"
    and "obj_get (imports importMap) spec = Own mapped" and "mapped \<noteq> []"
    and "protocol = (case protocol_match (config_baseUrl (options_config opts)) of
                       Some m \<Rightarrow> m | None \<Rightarrow> [])"
    and "resolvedImport =
           (if isDev opts then path_posix_resolve e [webModulesPath opts, mapped]
            else protocol @ path_posix_join e
                   [drop (length protocol) (config_baseUrl (options_config opts)),
                    webModulesPath opts, mapped])"
  shows "importResolver sc e opts spec =
           Inr (Url (if \<not> isBundled opts \<and> path_extname e resolvedImport \<noteq> []
                        \<and> path_extname e resolvedImport \<noteq> ''.js''
                     then resolvedImport @ ''.proxy.js'' else resolvedImport))"
  using assms by (simp add: importResolver_def Let_def)

lemma importResolver_inherited:
  assumes "matchedDir sc = Bound None" and "dependencyImportMap opts = Some importMap"
    and "spec \<in> set proto_keys" and "map_of (imports importMap) spec = None"
  shows "importResolver sc e opts spec = Inl TypeError"
proof -
  have "\<not> URL_HAS_PROTOCOL_REGEX_test spec" "\<not> startsWith spec ''/''"
       "\<not> startsWith spec ''./''" "\<not> startsWith spec ''../''"
    using assms(3)
    by (auto simp: proto_keys_def URL_HAS_PROTOCOL_REGEX_test_def protocol_match_def
                   startsWith_def is_word_def Let_def)
  then show ?thesis using assms by (simp add: importResolver_def obj_get_def)
qed

text \<open>
  C3. A bare specifier with no protocol, no path prefix, no matching mount entry and no
  entry in the import map should resolve to \<open>false\<close>, and no specifier should make the
  resolver raise. In the scope the module runs in, line 76 reads the undeclared
  \<open>matchedDir\<close>, so every specifier without a protocol raises a ReferenceError
  (\<open>importResolver_module_scope\<close>); here for the unmapped bare specifier \<open>react\<close>.
\<close>

theorem importResolver_unmapped_bare_raises:
  "createImportResolver module_scope no_files example_options ''react''
     = Inl (ReferenceError ''matchedDir'')"
  by code_simp

text \<open>
  C8. A bare specifier the import map resolves to a path with an extension other than
  \<open>.js\<close> should, when the output is not bundled, come back with \<open>.proxy.js\<close> appended.
  Lines 99 to 103 do that, but are never reached: the specifier \<open>normalize.css\<close>, mapped
  to \<open>normalize.css\<close>, raises the ReferenceError of line 76.
\<close>

theorem importResolver_mapped_css_raises:
  "createImportResolver module_scope no_files example_options ''normalize.css''
     = Inl (ReferenceError ''matchedDir'')"
  by code_simp

text \<open>
  With \<open>matchedDir\<close> bound to a falsy value the remaining branches resolve an unmapped
  bare specifier to \<open>false\<close> and append \<open>.proxy.js\<close> as described, except for a specifier
  that names a property of \<open>Object.prototype\<close>.
\<close>

lemma importResolver_bound_examples:
  "createImportResolver bound_scope no_files example_options ''react'' = Inr JsFalse"
  "createImportResolver bound_scope no_files example_options ''normalize.css''
     = Inr (Url ''/web_modules/normalize.css.proxy.js'')"
  "createImportResolver bound_scope no_files example_options ''lodash''
     = Inr (Url ''/web_modules/lodash.js'')"
  "createImportResolver bound_scope no_files example_options ''constructor'' = Inl TypeError"
  by code_simp+

subsection \<open>urlToFile\<close>

lemma try_exts_lookups:
  "lookups (try_exts e cwd url d exts st) = lookups st @ attempts e cwd url d exts"
  by (induction exts arbitrary: st) (auto simp: Let_def)

lemma try_exts_consistent:
  "consistent e st \<Longrightarrow> consistent e (try_exts e cwd url d exts st)"
proof (induction exts arbitrary: st)
  case Nil
  then show ?case by simp
next
  case (Cons ext rest)
  let ?p = "path_join e [cwd, d, replaceExt e url ext]"
  show ?case
  proof (cases "existsSync e ?p")
    case True
    then show ?thesis by (simp add: consistent_def Let_def)
  next
    case False
    have "consistent e (st\<lparr>lookups := lookups st @ [?p]\<rparr>)"
      using Cons.prems False by (auto simp: consistent_def split: option.splits)
    then show ?thesis using False Cons.IH by (simp add: Let_def)
  qed
qed

lemma try_exts_last_hit:
  "locOnDisk st = last_option (filter (existsSync e) (lookups st)) \<Longrightarrow>
   locOnDisk (try_exts e cwd url d exts st)
     = last_option (filter (existsSync e) (lookups (try_exts e cwd url d exts st)))"
proof (induction exts arbitrary: st)
  case Nil
  then show ?case by simp
next
  case (Cons ext rest)
  let ?p = "path_join e [cwd, d, replaceExt e url ext]"
  show ?case
  proof (cases "existsSync e ?p")
    case True
    then show ?thesis by (simp add: last_option_def Let_def)
  next
    case False
    have "locOnDisk (st\<lparr>lookups := lookups st @ [?p]\<rparr>)
            = last_option (filter (existsSync e) (lookups (st\<lparr>lookups := lookups st @ [?p]\<rparr>)))"
      using Cons.prems False by simp
    then show ?thesis using False Cons.IH by (simp add: Let_def)
  qed
qed

lemma try_dir_Inr:
  assumes "try_dir e cwd url extMap key st entry = Inr st'"
  shows "\<exists>cands. obj_get (extMap_output extMap) key = Own cands
                 \<and> st' = try_exts e cwd url (fst entry) cands st"
  using assms by (auto simp: try_dir_def Let_def split: lookup.splits)

lemma urlToFile_Inr:
  assumes "urlToFile sc e url config cwd_opt = Inr r"
  shows "\<exists>loaded mountedDirs extMap.
           loadPlugins sc e config = Inr loaded
         \<and> getMountedDirs e config = Inr mountedDirs
         \<and> createPluginExtensionMap (plugins loaded) = Inr extMap
         \<and> foldE (try_dir e (cwd_or_default e cwd_opt) url extMap (lookup_key e url))
              (possibleDirs mountedDirs url) \<lparr>locOnDisk = None, lookups = []\<rparr> = Inr r"
  using assms by (auto simp: urlToFile_def Let_def split: sum.splits)

text \<open>
  C10. Whenever urlToFile returns, a defined \<open>locOnDisk\<close> is an element of \<open>lookups\<close> and
  exists on disk; an undefined \<open>locOnDisk\<close> means that no path in \<open>lookups\<close> exists on disk.
\<close>

theorem urlToFile_locOnDisk:
  assumes "urlToFile sc e url config cwd_opt = Inr r"
  shows "case locOnDisk r of
           Some p \<Rightarrow> p \<in> set (lookups r) \<and> existsSync e p
         | None \<Rightarrow> \<forall>p\<in>set (lookups r). \<not> existsSync e p"
proof -
  from urlToFile_Inr[OF assms] obtain extMap mountedDirs where
    f: "foldE (try_dir e (cwd_or_default e cwd_opt) url extMap (lookup_key e url))
          (possibleDirs mountedDirs url) \<lparr>locOnDisk = None, lookups = []\<rparr> = Inr r"
    by blast
  have "consistent e r"
  proof (rule foldE_invariant[OF f, where P = "consistent e"])
    show "consistent e \<lparr>locOnDisk = None, lookups = []\<rparr>" by (simp add: consistent_def)
  next
    fix st entry st'
    assume "consistent e st"
      and "try_dir e (cwd_or_default e cwd_opt) url extMap (lookup_key e url) st entry = Inr st'"
    then show "consistent e st'" using try_dir_Inr try_exts_consistent by metis
  qed
  then show ?thesis by (simp add: consistent_def)
qed

theorem urlToFile_locOnDisk_witness:
  "urlToFile module_scope scss_only ''/dist/app.css'' css_project None
     = Inr \<lparr>locOnDisk = Some ''/project/dist/dist/app.scss'',
            lookups = [''/project/dist/dist/app.css'', ''/project/dist/dist/app.scss'']\<rparr>
   \<and> ''/project/dist/dist/app.scss''
         \<in> set [''/project/dist/dist/app.css'', ''/project/dist/dist/app.scss'']
   \<and> existsSync scss_only ''/project/dist/dist/app.scss''
   \<and> urlToFile module_scope no_files ''/dist/app.css'' css_project None
     = Inr \<lparr>locOnDisk = None,
            lookups = [''/project/dist/dist/app.css'', ''/project/dist/dist/app.scss'']\<rparr>
   \<and> \<not> existsSync no_files ''/project/dist/dist/app.css''
   \<and> \<not> existsSync no_files ''/project/dist/dist/app.scss''"
proof -
  have hit: "urlToFile module_scope scss_only ''/dist/app.css'' css_project None
     = Inr \<lparr>locOnDisk = Some ''/project/dist/dist/app.scss'',
            lookups = [''/project/dist/dist/app.css'', ''/project/dist/dist/app.scss'']\<rparr>"
    by code_simp
  have miss: "urlToFile module_scope no_files ''/dist/app.css'' css_project None
     = Inr \<lparr>locOnDisk = None,
            lookups = [''/project/dist/dist/app.css'', ''/project/dist/dist/app.scss'']\<rparr>"
    by code_simp
  show ?thesis
    using urlToFile_locOnDisk[OF hit] urlToFile_locOnDisk[OF miss] hit miss by simp
qed

lemma urlToFile_last_hit:
  assumes "urlToFile sc e url config cwd_opt = Inr r"
  shows "locOnDisk r = last_option (filter (existsSync e) (lookups r))"
proof -
  from urlToFile_Inr[OF assms] obtain extMap mountedDirs where
    f: "foldE (try_dir e (cwd_or_default e cwd_opt) url extMap (lookup_key e url))
          (possibleDirs mountedDirs url) \<lparr>locOnDisk = None, lookups = []\<rparr> = Inr r"
    by blast
  show ?thesis
  proof (rule foldE_invariant[OF f,
           where P = "\<lambda>st. locOnDisk st = last_option (filter (existsSync e) (lookups st))"])
    show "locOnDisk \<lparr>locOnDisk = None, lookups = []\<rparr>
            = last_option (filter (existsSync e) (lookups \<lparr>locOnDisk = None, lookups = []\<rparr>))"
      by (simp add: last_option_def)
  next
    fix st entry st'
    assume "locOnDisk st = last_option (filter (existsSync e) (lookups st))"
      and "try_dir e (cwd_or_default e cwd_opt) url extMap (lookup_key e url) st entry = Inr st'"
    then show "locOnDisk st' = last_option (filter (existsSync e) (lookups st'))"
      using try_dir_Inr try_exts_last_hit by metis
  qed
qed

text \<open>The attempts of the outer loop, one block per mount entry.\<close>

lemma foldE_try_dir_lookups:
  assumes "foldE (try_dir e cwd url extMap key) dirs st = Inr st'"
    and "obj_get (extMap_output extMap) key = Own cands"
  shows "lookups st' = lookups st @ concat (map (\<lambda>entry. attempts e cwd url (fst entry) cands) dirs)"
  using assms(1)
proof (induction dirs arbitrary: st)
  case Nil
  then show ?case by simp
next
  case (Cons entry dirs)
  from Cons.prems obtain s1 where s1: "try_dir e cwd url extMap key st entry = Inr s1"
    and rest: "foldE (try_dir e cwd url extMap key) dirs s1 = Inr st'"
    by (auto split: sum.splits)
  have "s1 = try_exts e cwd url (fst entry) cands st"
    using try_dir_Inr[OF s1] assms(2) by auto
  then show ?case using Cons.IH[OF rest] by (simp add: try_exts_lookups)
qed

lemma foldE_try_dir_Own:
  assumes "foldE (try_dir e cwd url extMap key) dirs st = Inr st'" and "dirs \<noteq> []"
  shows "\<exists>cands. obj_get (extMap_output extMap) key = Own cands"
  using assms by (cases dirs) (auto simp: try_dir_def Let_def split: sum.splits lookup.splits)

text \<open>
  With at most one matching mount entry the path returned is the first attempted path
  that exists.
\<close>

lemma attempts_hits:
  "filter (existsSync e) (attempts e cwd url d exts) = []
   \<or> (\<exists>pre p. attempts e cwd url d exts = pre @ [p] \<and> existsSync e p
               \<and> filter (existsSync e) pre = [])"
proof (induction exts)
  case Nil
  then show ?case by simp
next
  case (Cons ext rest)
  let ?p = "path_join e [cwd, d, replaceExt e url ext]"
  show ?case
  proof (cases "existsSync e ?p")
    case True
    then have "attempts e cwd url d (ext # rest) = [] @ [?p]" by (simp add: Let_def)
    then show ?thesis using True by force
  next
    case False
    from Cons.IH show ?thesis
    proof
      assume "filter (existsSync e) (attempts e cwd url d rest) = []"
      then show ?thesis using False by (simp add: Let_def)
    next
      assume "\<exists>pre p. attempts e cwd url d rest = pre @ [p] \<and> existsSync e p
                 \<and> filter (existsSync e) pre = []"
      then obtain pre p where "attempts e cwd url d rest = pre @ [p]" "existsSync e p"
        "filter (existsSync e) pre = []" by blast
      then have "attempts e cwd url d (ext # rest) = (?p # pre) @ [p]
                 \<and> existsSync e p \<and> filter (existsSync e) (?p # pre) = []"
        using False by (simp add: Let_def)
      then show ?thesis by blast
    qed
  qed
qed

lemma find_single_hit:
  assumes "filter P xs = [] \<or> (\<exists>pre p. xs = pre @ [p] \<and> P p \<and> filter P pre = [])"
  shows "List.find P xs = last_option (filter P xs)"
  using assms
proof
  assume "filter P xs = []"
  then show ?thesis by (simp add: last_option_def find_None_iff filter_empty_conv)
next
  assume "\<exists>pre p. xs = pre @ [p] \<and> P p \<and> filter P pre = []"
  then obtain pre p where xs: "xs = pre @ [p]" and p: "P p" and pre: "filter P pre = []" by blast
  have "List.find P (pre @ [p]) = Some p" using pre p by (induction pre) (auto split: if_splits)
  then show ?thesis using xs p pre by (simp add: last_option_def)
qed

lemma urlToFile_single_mount_first_hit:
  assumes "urlToFile sc e url config cwd_opt = Inr r"
    and "getMountedDirs e config = Inr md" and "length (possibleDirs md url) \<le> 1"
  shows "locOnDisk r = List.find (existsSync e) (lookups r)"
proof -
  let ?cwd = "cwd_or_default e cwd_opt" and ?key = "lookup_key e url"
  from urlToFile_Inr[OF assms(1)] assms(2) obtain loaded :: LoadResult and extMap where
    f: "foldE (try_dir e ?cwd url extMap ?key) (possibleDirs md url)
          \<lparr>locOnDisk = None, lookups = []\<rparr> = Inr r"
    by auto
  have hits: "filter (existsSync e) (lookups r) = []
        \<or> (\<exists>pre p. lookups r = pre @ [p] \<and> existsSync e p \<and> filter (existsSync e) pre = [])"
  proof (cases "possibleDirs md url")
    case Nil
    then show ?thesis using f by auto
  next
    case (Cons entry rest)
    then have rest: "rest = []" using assms(3) by simp
    from foldE_try_dir_Own[OF f] Cons obtain cands where
      own: "obj_get (extMap_output extMap) ?key = Own cands" by auto
    have "lookups r = attempts e ?cwd url (fst entry) cands"
      using foldE_try_dir_lookups[OF f own] Cons rest by simp
    then show ?thesis using attempts_hits[of e ?cwd url "fst entry" cands] by simp
  qed
  show ?thesis
    using urlToFile_last_hit[OF assms(1)] find_single_hit[OF hits] by simp
qed

lemma urlToFile_unmapped:
  assumes "loadPlugins sc e config = Inr loaded" and "getMountedDirs e config = Inr mountedDirs"
    and "createPluginExtensionMap (plugins loaded) = Inr extMap"
    and "\<not> is_own (extMap_output extMap) (lookup_key e url)"
    and "possibleDirs mountedDirs url \<noteq> []"
  shows "urlToFile sc e url config cwd_opt = Inl TypeError"
proof -
  obtain entry rest where "possibleDirs mountedDirs url = entry # rest"
    using assms(5) by (cases "possibleDirs mountedDirs url") auto
  then show ?thesis
    using assms(1-4)
    by (auto simp: urlToFile_def try_dir_def is_own_def Let_def split: lookup.splits)
qed

text \<open>
  C2. The output side of the extension lookup should be total: \<open>output[o]\<close> should hold
  \<open>o\<close> even when no plugin declares \<open>o\<close>, and an unmapped lookup key should fall back to
  the one-element list of the key itself, so that the same-named file is tried under
  every matching mount entry. The code has no such fallback: a key no plugin declares is
  not in the mapping (\<open>undeclared_output_unmapped\<close>) and line 147 iterates \<open>undefined\<close>.
  With \<open>dist\<close> mounted and no build script, the URL \<open>/dist/app.css\<close> raises a TypeError and
  no path is tried.
\<close>

theorem urlToFile_unmapped_extension_raises:
  "urlToFile module_scope no_files ''/dist/app.css'' mount_only None = Inl TypeError"
  by code_simp

text \<open>
  C4. urlToFile should return the first attempted path that exists, in the order of the
  mount entries and then of the candidate extensions. The \<open>break\<close> of line 152 leaves
  only the inner loop, so a later matching mount entry is still tried and a hit there
  replaces the earlier one: what is returned is the last attempted path that exists
  (\<open>urlToFile_last_hit\<close>). With \<open>a\<close> and \<open>b\<close> both mounted at \<open>/\<close> and \<open>x.js\<close> in both,
  the URL \<open>/x.js\<close> returns the file under \<open>b\<close>, although the one under \<open>a\<close> was tried
  first and exists.
\<close>

theorem urlToFile_two_mounts:
  "urlToFile module_scope both_files ''/x.js'' two_mounts None
     = Inr \<lparr>locOnDisk = Some ''/project/b/x.js'',
            lookups = [''/project/a/x.js'', ''/project/b/x.js'']\<rparr>
   \<and> existsSync both_files ''/project/a/x.js''"
  by code_simp

text \<open>
  The candidate path keeps the whole URL, mount prefix included, under the disk prefix:
  for \<open>dist/\<close> mounted at \<open>/dist/\<close> the paths tried for \<open>/dist/app.css\<close> lie in
  \<open>dist/dist/\<close>, and \<open>app.scss\<close> in \<open>dist/\<close> itself is not found.
\<close>

lemma urlToFile_keeps_url_prefix:
  "urlToFile module_scope scss_in_dist ''/dist/app.css'' css_project None
     = Inr \<lparr>locOnDisk = None,
            lookups = [''/project/dist/dist/app.css'', ''/project/dist/dist/app.scss'']\<rparr>"
  by code_simp

lemma attempts_Cons: "\<exists>rest'. attempts e cwd url d (ext # rest) = path_join e [cwd, d, replaceExt e url ext] # rest'"
  by (simp add: Let_def)




end
